theory Spec2Isabelle
  imports Main "HOL-Library.AList"
begin

section \<open>The agent manager of SMARTS (smarts/core/agent\_manager.py)\<close>

text \<open>
  The class \<open>AgentManager\<close> is embedded as a record of its attributes and one HOL
  function per method, with the state passed in and returned.

  \<^item> A Python \<open>set\<close> is the list of its elements in iteration order; the theorems speak
    about \<open>set xs\<close>, so they hold for every iteration order.
  \<^item> A Python \<open>dict\<close> that the code only reads and writes by key is a map; a \<open>dict\<close>
    that the code iterates is an association list in insertion order.
  \<^item> An exception is a value \<open>Inl e\<close>. A method that can raise after it has changed
    the manager returns the state it leaves behind next to the result.
  \<^item> The calls that change objects outside this class (a debug message to a logger,
    \<open>terminate\<close> of a remote agent, \<open>plan\<close> of a mission planner,
    \<open>attach_sensors_to_vehicle\<close> of the vehicle index) are appended to the field
    \<open>trace\<close> in the order the code makes them.
  \<^item> The simulation (vehicle index, sensors) and the remote agents are not defined in
    this file of the repository: what they answer is a parameter, the records \<open>sim\<close>
    and \<open>remote\<close> below. Their queries are taken to return; the accumulator a trip
    meter keeps inside a vehicle is not followed.
\<close>

subsection \<open>Data\<close>

type_synonym agent_id = string
type_synonym vehicle_id = string

text \<open>
  Modelled from the spec: \<open>controllers.ActionSpaceType\<close> is imported, not defined, by
  the source file. The code tests a capability descriptor only for
  \<open>ActionSpaceType.MultiTargetPose\<close> (the multi-vehicle variant); every other variant
  takes the single-vehicle path.
\<close>

datatype ActionSpaceType = MultiTargetPose | OtherActionSpace

record agent_interface =
  action_space :: ActionSpaceType

datatype error = KeyError | AssertionError | AttributeError | TerminateError

datatype log_msg =
    TearingDownAgents "agent_id list"
  | ReturnedNoAction "agent_id list"
  | RaisedDone agent_id

datatype 'h event =
    LogDebug log_msg
  | Terminate 'h
  | MissionPlannerPlan
  | AttachSensorsToVehicle vehicle_id agent_interface

record ('h, 'm) agent_manager =
  ego_agent_ids :: "agent_id list"
  social_agent_ids :: "agent_id list"
  vehicle_with_sensors :: "vehicle_id \<rightharpoonup> agent_id"
  initial_interfaces :: "(agent_id \<times> agent_interface) list"
  pending_agent_ids :: "agent_id list"
  agent_interfaces :: "agent_id \<rightharpoonup> agent_interface"
  agent_data_models :: "agent_id \<rightharpoonup> 'm"
  remote_social_agents :: "(agent_id \<times> 'h) list"
  trace :: "'h event list"

subsection \<open>Python sets as lists\<close>

definition set_union :: "'a list \<Rightarrow> 'a list \<Rightarrow> 'a list" where
  "set_union xs ys = xs @ filter (\<lambda>y. y \<notin> set xs) ys"

definition set_diff :: "'a list \<Rightarrow> 'a list \<Rightarrow> 'a list" where
  "set_diff xs ys = filter (\<lambda>x. x \<notin> set ys) xs"

definition set_inter :: "'a list \<Rightarrow> 'a list \<Rightarrow> 'a list" where
  "set_inter xs ys = filter (\<lambda>x. x \<in> set ys) xs"

subsection \<open>Properties of the manager\<close>

definition agent_ids :: "('h, 'm) agent_manager \<Rightarrow> agent_id list" where
  "agent_ids s = set_union (ego_agent_ids s) (social_agent_ids s)"

definition active_agents :: "('h, 'm) agent_manager \<Rightarrow> agent_id list" where
  "active_agents s = set_diff (agent_ids s) (pending_agent_ids s)"

definition is_ego :: "('h, 'm) agent_manager \<Rightarrow> agent_id \<Rightarrow> bool" where
  "is_ego s agent_id \<longleftrightarrow> agent_id \<in> set (ego_agent_ids s)"

subsection \<open>\<open>remove_pending_agent_ids\<close>\<close>

text \<open>
  The \<open>assert\<close> comes first, so a rejected call leaves the manager as it was.
\<close>

definition remove_pending_agent_ids ::
  "('h, 'm) agent_manager \<Rightarrow> agent_id list \<Rightarrow> error + ('h, 'm) agent_manager" where
  "remove_pending_agent_ids s ids =
     (if \<not> set ids \<subseteq> set (agent_ids s) then Inl AssertionError
      else Inr (s\<lparr>pending_agent_ids := set_diff (pending_agent_ids s) ids\<rparr>))"


subsection \<open>The collaborators: simulation and remote agents\<close>

text \<open>
  A vehicle object: its attribute \<open>id\<close> and its method \<open>trip_meter_sensor\<close>, whose
  argument is the keyword \<open>increment\<close> (default \<open>False\<close>).
\<close>

record 'r vehicle =
  ident :: vehicle_id
  trip_meter_sensor :: "bool \<Rightarrow> 'r"

text \<open>
  \<open>sim.vehicle_index\<close> and \<open>Sensors\<close>. \<open>agent_vehicle_ids\<close> is a set.
  \<open>vehicle_indices_by_actor_id\<close> with the columns \<open>vehicle_id\<close> and
  \<open>shadow_actor_id\<close> answers a table, here the list of its rows; a vehicle nobody
  shadows has \<open>None\<close> in the second column. The argument of
  \<open>vehicle_ids_by_actor_id\<close> is the keyword \<open>include_shadowers\<close>;
  the last argument of \<open>format_actor_id\<close> is \<open>is_multi\<close>.
\<close>

record ('ss, 'o, 'r) sim =
  agent_vehicle_ids :: "vehicle_id list"
  actor_id_from_vehicle_id :: "vehicle_id \<Rightarrow> agent_id"
  vehicle_ids_by_actor_id :: "agent_id \<Rightarrow> bool \<Rightarrow> vehicle_id list"
  vehicle_indices_by_actor_id :: "agent_id \<Rightarrow> (vehicle_id \<times> agent_id option) list"
  vehicle_by_id :: "vehicle_id \<Rightarrow> 'r vehicle"
  sensor_state_for_vehicle_id :: "vehicle_id \<Rightarrow> 'ss"
  Sensors_observe :: "agent_id \<Rightarrow> 'ss \<Rightarrow> 'r vehicle \<Rightarrow> 'o \<times> bool"
  Sensors_observe_batch ::
    "agent_id \<Rightarrow> (vehicle_id \<times> 'ss) list \<Rightarrow> (vehicle_id \<times> 'r vehicle) list
       \<Rightarrow> (vehicle_id \<times> 'o) list \<times> (vehicle_id \<times> bool) list"
  format_actor_id :: "agent_id \<Rightarrow> vehicle_id \<Rightarrow> bool \<Rightarrow> string"

text \<open>
  What a remote agent sends back: Python's \<open>None\<close> after the timeout, an action for
  one vehicle, or (for a multi-vehicle agent) a \<open>dict\<close> from vehicle ids to actions.
  Only the last has a method \<open>items\<close>.
\<close>

datatype 'a action = PyNone | Action 'a | VehicleActions "(vehicle_id \<times> 'a) list"

text \<open>
  The remote agents, by handle: the answer of \<open>recv_action(timeout)\<close> in this tick
  and whether \<open>terminate()\<close> raises.
\<close>

record ('h, 'a) remote =
  recv_action :: "'h \<Rightarrow> nat \<Rightarrow> 'a action"
  terminate_raises :: "'h \<Rightarrow> bool"

text \<open>
  A value stored per agent in the observations, rewards and scores of a tick: one value
  for a single-vehicle agent, a \<open>dict\<close> for a multi-vehicle agent.
\<close>

datatype 'x per_agent = Single 'x | PerVehicle "(string \<times> 'x) list"

subsection \<open>Python dicts as association lists\<close>

text \<open>
  A dict comprehension inserts its pairs from left to right; a key seen again keeps its
  place and takes the new value, which is what \<^const>\<open>AList.update\<close> does.
\<close>

definition dict_of :: "('k \<times> 'v) list \<Rightarrow> ('k \<times> 'v) list" where
  "dict_of kvs = fold (\<lambda>(k, v). AList.update k v) kvs []"

definition log_debug :: "log_msg \<Rightarrow> ('h, 'm) agent_manager \<Rightarrow> ('h, 'm) agent_manager" where
  "log_debug msg s = s\<lparr>trace := trace s @ [LogDebug msg]\<rparr>"

subsection \<open>\<open>observe_from\<close>\<close>

type_synonym ('o, 'r) observe_from_acc =
  "(agent_id \<rightharpoonup> 'o) \<times> (agent_id \<rightharpoonup> 'r) \<times> (agent_id \<rightharpoonup> bool) \<times> (agent_id \<rightharpoonup> 'r)"

text \<open>The loop over \<open>vehicle_ids\<close>; the accumulator is (observations, rewards, dones, scores).\<close>

fun observe_from_loop ::
  "('ss, 'o, 'r) sim \<Rightarrow> ('h, 'm) agent_manager \<Rightarrow> vehicle_id list
     \<Rightarrow> ('o, 'r) observe_from_acc \<Rightarrow> error + ('o, 'r) observe_from_acc" where
  "observe_from_loop sim s [] acc = Inr acc"
| "observe_from_loop sim s (v_id # rest) (observations, rewards, dones, scores) =
     (let vehicle = vehicle_by_id sim v_id in
      case vehicle_with_sensors s v_id of
        None \<Rightarrow> Inl KeyError
      | Some agent_id \<Rightarrow>
          (let sensor_state = sensor_state_for_vehicle_id sim (ident vehicle);
               (ob, dn) = Sensors_observe sim agent_id sensor_state vehicle
           in observe_from_loop sim s rest
                (observations(agent_id \<mapsto> ob),
                 rewards(agent_id \<mapsto> trip_meter_sensor vehicle True),
                 dones(agent_id \<mapsto> dn),
                 scores(agent_id \<mapsto> trip_meter_sensor vehicle False))))"

definition observe_from ::
  "('ss, 'o, 'r) sim \<Rightarrow> ('h, 'm) agent_manager \<Rightarrow> vehicle_id list
     \<Rightarrow> error + ((agent_id \<rightharpoonup> 'o) \<times> (agent_id \<rightharpoonup> 'r) \<times> (agent_id \<rightharpoonup> 'r) \<times> (agent_id \<rightharpoonup> bool))" where
  "observe_from sim s vehicle_ids =
     (case observe_from_loop sim s vehicle_ids (Map.empty, Map.empty, Map.empty, Map.empty) of
        Inl e \<Rightarrow> Inl e
      | Inr (observations, rewards, dones, scores) \<Rightarrow> Inr (observations, rewards, scores, dones))"

subsection \<open>\<open>observe\<close>\<close>

definition vehicle_reward :: "vehicle_id \<Rightarrow> ('ss, 'o, 'r) sim \<Rightarrow> 'r" where
  "vehicle_reward vehicle_id sim = trip_meter_sensor (vehicle_by_id sim vehicle_id) True"

definition vehicle_score :: "vehicle_id \<Rightarrow> ('ss, 'o, 'r) sim \<Rightarrow> 'r" where
  "vehicle_score vehicle_id sim = trip_meter_sensor (vehicle_by_id sim vehicle_id) False"

type_synonym ('o, 'r) observe_acc =
  "(agent_id \<rightharpoonup> 'o per_agent) \<times> (agent_id \<rightharpoonup> 'r per_agent)
     \<times> (agent_id \<rightharpoonup> 'r per_agent) \<times> (agent_id \<rightharpoonup> bool)"

text \<open>
  The body of the loop over the active agents, for one agent. The accumulator is
  (observations, rewards, scores, dones). The debug message of the single-vehicle
  branch goes to the trace.
\<close>

definition observe_agent ::
  "('ss, 'o, 'r) sim \<Rightarrow> agent_id \<Rightarrow> ('o, 'r) observe_acc \<Rightarrow> ('h, 'm) agent_manager
     \<Rightarrow> (error + ('o, 'r) observe_acc) \<times> ('h, 'm) agent_manager" where
  "observe_agent sim agent_id acc s =
     (case acc of (observations, rewards, scores, dones) \<Rightarrow>
      (case agent_interfaces s agent_id of
        None \<Rightarrow> (Inl KeyError, s)
      | Some agent_interface \<Rightarrow>
          (let indices = vehicle_indices_by_actor_id sim agent_id in
           if action_space agent_interface = MultiTargetPose then
             (let vehicles = map (\<lambda>vehicle_id. vehicle_by_id sim vehicle_id) (map fst indices);
                  sensor_states = dict_of (map (\<lambda>vehicle.
                      (ident vehicle, sensor_state_for_vehicle_id sim (ident vehicle))) vehicles);
                  (obs, ds) = Sensors_observe_batch sim agent_id sensor_states
                      (dict_of (map (\<lambda>v. (ident v, v)) vehicles));
                  dn = list_ex (\<lambda>d. d) (map snd ds);
                  rw = dict_of (map (\<lambda>(vehicle_id, sensor_state).
                      (vehicle_id, vehicle_reward vehicle_id sim)) sensor_states);
                  sc = dict_of (map (\<lambda>(vehicle_id, sensor_state).
                      (format_actor_id sim agent_id vehicle_id True,
                       vehicle_score vehicle_id sim)) sensor_states)
              in (Inr (observations(agent_id \<mapsto> PerVehicle obs),
                       rewards(agent_id \<mapsto> PerVehicle rw),
                       scores(agent_id \<mapsto> PerVehicle sc),
                       dones(agent_id \<mapsto> dn)), s))
           else if length (map fst indices) \<noteq> 1 then (Inl AssertionError, s)
           else
             (let vehicle = vehicle_by_id sim (hd (map fst indices));
                  sensor_state = sensor_state_for_vehicle_id sim (ident vehicle);
                  (ob, dn) = Sensors_observe sim agent_id sensor_state vehicle;
                  (dn', s') = (if hd (map snd indices) = Some agent_id then (False, s)
                               else (dn, log_debug (RaisedDone agent_id) s))
              in (Inr (observations(agent_id \<mapsto> Single ob),
                       rewards(agent_id \<mapsto> Single (trip_meter_sensor vehicle True)),
                       scores(agent_id \<mapsto> Single (trip_meter_sensor vehicle False)),
                       dones(agent_id \<mapsto> dn')), s')))))"

fun observe_loop ::
  "('ss, 'o, 'r) sim \<Rightarrow> agent_id list \<Rightarrow> ('o, 'r) observe_acc \<Rightarrow> ('h, 'm) agent_manager
     \<Rightarrow> (error + ('o, 'r) observe_acc) \<times> ('h, 'm) agent_manager" where
  "observe_loop sim [] acc s = (Inr acc, s)"
| "observe_loop sim (agent_id # rest) acc s =
     (case observe_agent sim agent_id acc s of
        (Inl e, s') \<Rightarrow> (Inl e, s')
      | (Inr acc', s') \<Rightarrow> observe_loop sim rest acc' s')"

definition observe ::
  "('ss, 'o, 'r) sim \<Rightarrow> ('h, 'm) agent_manager
     \<Rightarrow> (error + ('o, 'r) observe_acc) \<times> ('h, 'm) agent_manager" where
  "observe sim s =
     (let dones = (\<lambda>agent_id.
            if agent_id \<in> set (agent_ids s) \<and> agent_id \<notin> set (agent_vehicle_ids sim)
            then Some (agent_id \<notin> set (pending_agent_ids s)) else None)
      in observe_loop sim (active_agents s) (Map.empty, Map.empty, Map.empty, dones) s)"

subsection \<open>\<open>fetch_agent_actions\<close>\<close>

text \<open>
  The loop of \<open>_filter_social_agent_actions_for_controlled_vehicles\<close> over the items
  of the dict it has just built; the last argument is that dict, updated in place.
\<close>

fun filter_loop ::
  "('ss, 'o, 'r) sim \<Rightarrow> ('h, 'm) agent_manager \<Rightarrow> (agent_id \<times> 'a action) list
     \<Rightarrow> (agent_id \<times> 'a action) list \<Rightarrow> error + (agent_id \<times> 'a action) list" where
  "filter_loop sim s [] social_agent_actions = Inr social_agent_actions"
| "filter_loop sim s ((agent_id, actions) # rest) social_agent_actions =
     (case agent_interfaces s agent_id of
        None \<Rightarrow> Inl KeyError
      | Some agent_interface \<Rightarrow>
          if action_space agent_interface = MultiTargetPose then
            (let controlled_vehicle_ids = vehicle_ids_by_actor_id sim agent_id False in
             case actions of
               VehicleActions items \<Rightarrow>
                 filter_loop sim s rest
                   (AList.update agent_id
                      (VehicleActions (filter (\<lambda>(vehicle_id, vehicle_action).
                          vehicle_id \<in> set controlled_vehicle_ids) items))
                      social_agent_actions)
             | _ \<Rightarrow> Inl AttributeError)
          else filter_loop sim s rest social_agent_actions)"

definition controlling_agent_ids :: "('ss, 'o, 'r) sim \<Rightarrow> agent_id list" where
  "controlling_agent_ids sim =
     remdups (map (\<lambda>v_id. actor_id_from_vehicle_id sim v_id) (agent_vehicle_ids sim))"

definition filter_social_agent_actions_for_controlled_vehicles ::
  "('ss, 'o, 'r) sim \<Rightarrow> ('h, 'm) agent_manager \<Rightarrow> (agent_id \<times> 'a action) list
     \<Rightarrow> error + (agent_id \<times> 'a action) list" where
  "filter_social_agent_actions_for_controlled_vehicles sim s social_agent_actions =
     (let social_agent_actions' =
            filter (\<lambda>(agent_id, action). agent_id \<in> set (controlling_agent_ids sim))
              social_agent_actions
      in filter_loop sim s social_agent_actions' social_agent_actions')"

definition fetch_agent_actions ::
  "('ss, 'o, 'r) sim \<Rightarrow> ('h, 'a) remote \<Rightarrow> ('h, 'm) agent_manager \<Rightarrow> (agent_id \<rightharpoonup> 'a action)
     \<Rightarrow> (error + (agent_id \<rightharpoonup> 'a action)) \<times> ('h, 'm) agent_manager" where
  "fetch_agent_actions sim env s ego_agent_actions =
     (let social_agent_actions =
            map (\<lambda>(agent_id, remote_agent). (agent_id, recv_action env remote_agent 5))
              (remote_social_agents s);
          agents_without_actions =
            map fst (filter (\<lambda>(agent_id, action). action = PyNone) social_agent_actions);
          s' = (if length agents_without_actions > 0
                then log_debug (ReturnedNoAction agents_without_actions) s else s)
      in case filter_social_agent_actions_for_controlled_vehicles sim s' social_agent_actions of
           Inl e \<Rightarrow> (Inl e, s')
         | Inr social_agent_actions' \<Rightarrow>
             (Inr (ego_agent_actions ++ map_of social_agent_actions'), s'))"

subsection \<open>Teardown of social agents\<close>

definition teardown_agents_by_ids ::
  "('h, 'm) agent_manager \<Rightarrow> agent_id list \<Rightarrow> agent_id list option
     \<Rightarrow> agent_id list \<times> ('h, 'm) agent_manager" where
  "teardown_agents_by_ids s ids filter_ids =
     (let ids' = (case filter_ids of None \<Rightarrow> ids | Some f \<Rightarrow> set_inter ids f);
          s1 = (if ids' \<noteq> [] then log_debug (TearingDownAgents ids') s else s);
          s2 = fold (\<lambda>agent_id s. s\<lparr>agent_interfaces := (agent_interfaces s)(agent_id := None)\<rparr>)
                 ids' s1
      in (ids', s2))"

text \<open>
  The loop of \<open>teardown_social_agents\<close>. The call of \<open>terminate\<close> is recorded before it
  returns or raises; the two \<open>del\<close> statements raise \<open>KeyError\<close> on a missing key.
\<close>

fun terminate_loop ::
  "('h, 'a) remote \<Rightarrow> agent_id list \<Rightarrow> ('h, 'm) agent_manager
     \<Rightarrow> error option \<times> ('h, 'm) agent_manager" where
  "terminate_loop env [] s = (None, s)"
| "terminate_loop env (id' # rest) s =
     (case map_of (remote_social_agents s) id' of
        None \<Rightarrow> (Some KeyError, s)
      | Some remote_agent \<Rightarrow>
          (let s1 = s\<lparr>trace := trace s @ [Terminate remote_agent]\<rparr> in
           if terminate_raises env remote_agent then (Some TerminateError, s1)
           else
             (let s2 = s1\<lparr>remote_social_agents := AList.delete id' (remote_social_agents s1)\<rparr> in
              case agent_data_models s2 id' of
                None \<Rightarrow> (Some KeyError, s2)
              | Some _ \<Rightarrow>
                  terminate_loop env rest
                    (s2\<lparr>agent_data_models := (agent_data_models s2)(id' := None)\<rparr>))))"

definition teardown_social_agents ::
  "('h, 'a) remote \<Rightarrow> ('h, 'm) agent_manager \<Rightarrow> agent_id list option
     \<Rightarrow> (error + agent_id list) \<times> ('h, 'm) agent_manager" where
  "teardown_social_agents env s filter_ids =
     (case teardown_agents_by_ids s (social_agent_ids s) filter_ids of
        (ids', s1) \<Rightarrow>
          (case terminate_loop env ids' s1 of
             (Some e, s2) \<Rightarrow> (Inl e, s2)
           | (None, s2) \<Rightarrow>
               (Inr ids', s2\<lparr>social_agent_ids := set_diff (social_agent_ids s2) ids'\<rparr>)))"

subsection \<open>\<open>attach_sensors_to_vehicles\<close>\<close>

fun attach_sensors_to_vehicles ::
  "('h, 'm) agent_manager \<Rightarrow> agent_interface \<Rightarrow> vehicle_id list \<Rightarrow> ('h, 'm) agent_manager" where
  "attach_sensors_to_vehicles s agent_interface [] = s"
| "attach_sensors_to_vehicles s agent_interface (sv_id # rest) =
     (if vehicle_with_sensors s sv_id \<noteq> None
      then attach_sensors_to_vehicles s agent_interface rest
      else
        (let s1 = s\<lparr>trace := trace s @ [MissionPlannerPlan]\<rparr>;
             agent_id = ''Agent-'' @ sv_id;
             s2 = s1\<lparr>vehicle_with_sensors := (vehicle_with_sensors s1)(sv_id \<mapsto> agent_id)\<rparr>;
             s3 = s2\<lparr>agent_interfaces := (agent_interfaces s2)(agent_id \<mapsto> agent_interface)\<rparr>;
             s4 = s3\<lparr>trace := trace s3 @ [AttachSensorsToVehicle sv_id agent_interface]\<rparr>
         in attach_sensors_to_vehicles s4 agent_interface rest))"

subsection \<open>Reading the trace and the results\<close>

text \<open>How often the trace records that sensors were attached to a given vehicle.\<close>

definition is_attach :: "vehicle_id \<Rightarrow> 'h event \<Rightarrow> bool" where
  "is_attach v e = (case e of AttachSensorsToVehicle v' i \<Rightarrow> v' = v | _ \<Rightarrow> False)"

definition attach_count :: "vehicle_id \<Rightarrow> 'h event list \<Rightarrow> nat" where
  "attach_count v tr = length (filter (is_attach v) tr)"

text \<open>The handles on which the trace records a call of \<open>terminate\<close>, in order.\<close>

definition terminate_calls :: "'h event list \<Rightarrow> 'h list" where
  "terminate_calls tr = concat (map (\<lambda>e. case e of Terminate h \<Rightarrow> [h] | _ \<Rightarrow> []) tr)"

text \<open>The entry of an agent in the dones that \<open>observe\<close> returns (\<open>None\<close>: no entry, or an exception).\<close>

definition done_for :: "error + ('o, 'r) observe_acc \<Rightarrow> agent_id \<Rightarrow> bool option" where
  "done_for result agent_id =
     (case result of Inl e \<Rightarrow> None | Inr (observations, rewards, scores, dones) \<Rightarrow> dones agent_id)"

subsection \<open>Example states\<close>

definition manager0 :: "(nat, string) agent_manager" where
  "manager0 =
     \<lparr>ego_agent_ids = [], social_agent_ids = [], vehicle_with_sensors = Map.empty,
      initial_interfaces = [], pending_agent_ids = [], agent_interfaces = Map.empty,
      agent_data_models = Map.empty, remote_social_agents = [], trace = []\<rparr>"

definition sim0 :: "(unit, nat, nat) sim" where
  "sim0 =
     \<lparr>agent_vehicle_ids = [], actor_id_from_vehicle_id = (\<lambda>v. v),
      vehicle_ids_by_actor_id = (\<lambda>a include_shadowers. []),
      vehicle_indices_by_actor_id = (\<lambda>a. []),
      vehicle_by_id = (\<lambda>v. \<lparr>ident = v, trip_meter_sensor = (\<lambda>increment. 0)\<rparr>),
      sensor_state_for_vehicle_id = (\<lambda>v. ()),
      Sensors_observe = (\<lambda>a ss v. (0, True)),
      Sensors_observe_batch = (\<lambda>a ss vs. (map (\<lambda>(v, x). (v, 0)) ss, map (\<lambda>(v, x). (v, False)) ss)),
      format_actor_id = (\<lambda>a v is_multi. if is_multi then a @ ''-'' @ v else a)\<rparr>"

text \<open>
  Two social agents \<open>a\<close> and \<open>b\<close> with the remote agents 1 and 2; \<open>remote_ok\<close>
  answers every request, \<open>remote_broken\<close> raises in every \<open>terminate\<close>.
\<close>

definition manager_ab :: "(nat, string) agent_manager" where
  "manager_ab =
     \<lparr>ego_agent_ids = [], social_agent_ids = [''a'', ''b''], vehicle_with_sensors = Map.empty,
      initial_interfaces = [], pending_agent_ids = [],
      agent_interfaces = [''a'' \<mapsto> \<lparr>action_space = OtherActionSpace\<rparr>,
                          ''b'' \<mapsto> \<lparr>action_space = MultiTargetPose\<rparr>],
      agent_data_models = [''a'' \<mapsto> ''model-a'', ''b'' \<mapsto> ''model-b''],
      remote_social_agents = [(''a'', 1), (''b'', 2)], trace = []\<rparr>"

definition remote_ok :: "(nat, nat) remote" where
  "remote_ok = \<lparr>recv_action = (\<lambda>h timeout. Action h), terminate_raises = (\<lambda>h. False)\<rparr>"

definition remote_broken :: "(nat, nat) remote" where
  "remote_broken = \<lparr>recv_action = (\<lambda>h timeout. PyNone), terminate_raises = (\<lambda>h. True)\<rparr>"

text \<open>
  \<open>sim_a\<close>: the index has one agent vehicle \<open>v1\<close>, controlled by agent \<open>a\<close>.
  \<open>sim_xy\<close>: agent \<open>b\<close> controls vehicle \<open>X\<close> and shadows vehicle \<open>Y\<close>.
\<close>

definition sim_a :: "(unit, nat, nat) sim" where
  "sim_a = sim0\<lparr>agent_vehicle_ids := [''v1''], actor_id_from_vehicle_id := (\<lambda>v. ''a''),
      vehicle_ids_by_actor_id := (\<lambda>a include_shadowers. if a = ''a'' then [''v1''] else []),
      vehicle_indices_by_actor_id := (\<lambda>a. if a = ''a'' then [(''v1'', None)] else [])\<rparr>"

definition sim_xy :: "(unit, nat, nat) sim" where
  "sim_xy = sim0\<lparr>agent_vehicle_ids := [''X''], actor_id_from_vehicle_id := (\<lambda>v. ''b''),
      vehicle_ids_by_actor_id := (\<lambda>a include_shadowers.
         if a = ''b'' then (if include_shadowers then [''X'', ''Y''] else [''X'']) else []),
      vehicle_indices_by_actor_id := (\<lambda>a.
         if a = ''b'' then [(''X'', None), (''Y'', Some ''b'')] else [])\<rparr>"

text \<open>
  One active single-vehicle ego agent \<open>a\<close>. In \<open>sim_a\<close> its vehicle \<open>v1\<close> has no
  shadower; in \<open>sim_shadow\<close> agent \<open>a\<close> is the shadower of \<open>v1\<close>. The sensors of both
  report done.
\<close>

definition manager_a :: "(nat, string) agent_manager" where
  "manager_a = manager0\<lparr>ego_agent_ids := [''a''],
      agent_interfaces := [''a'' \<mapsto> \<lparr>action_space = OtherActionSpace\<rparr>]\<rparr>"

definition sim_shadow :: "(unit, nat, nat) sim" where
  "sim_shadow = sim_a\<lparr>vehicle_indices_by_actor_id :=
      (\<lambda>a. if a = ''a'' then [(''v1'', Some ''a'')] else [])\<rparr>"

text \<open>One ego agent \<open>a\<close> that is still pending; with \<open>sim0\<close> it has no vehicle in the index.\<close>

definition manager_pending :: "(nat, string) agent_manager" where
  "manager_pending = manager0\<lparr>ego_agent_ids := [''a''], pending_agent_ids := [''a''],
      agent_interfaces := [''a'' \<mapsto> \<lparr>action_space = OtherActionSpace\<rparr>]\<rparr>"

section \<open>Basic facts\<close>

lemma set_set_union [simp]: "set (set_union xs ys) = set xs \<union> set ys"
  by (auto simp: set_union_def)

lemma set_set_diff [simp]: "set (set_diff xs ys) = set xs - set ys"
  by (auto simp: set_diff_def)

lemma set_set_inter [simp]: "set (set_inter xs ys) = set xs \<inter> set ys"
  by (auto simp: set_inter_def)

lemma distinct_set_diff: "distinct xs \<Longrightarrow> distinct (set_diff xs ys)"
  by (simp add: set_diff_def)

lemma distinct_set_inter: "distinct xs \<Longrightarrow> distinct (set_inter xs ys)"
  by (simp add: set_inter_def)

section \<open>Promotion of pending agents\<close>

text \<open>
  C9, as stated: a call of \<open>remove_pending_agent_ids\<close> is rejected unless every id is both
  registered and pending. The code asserts registration only: the agent \<open>a\<close> below is
  registered and not pending, and the call succeeds (changing nothing).
\<close>

theorem remove_pending_not_pending_accepted:
  "''a'' \<in> set (agent_ids (manager0\<lparr>ego_agent_ids := [''a'']\<rparr>))
   \<and> ''a'' \<notin> set (pending_agent_ids (manager0\<lparr>ego_agent_ids := [''a'']\<rparr>))
   \<and> remove_pending_agent_ids (manager0\<lparr>ego_agent_ids := [''a'']\<rparr>) [''a'']
       = Inr (manager0\<lparr>ego_agent_ids := [''a'']\<rparr>)"
  by (simp add: remove_pending_agent_ids_def agent_ids_def set_diff_def set_union_def
      manager0_def)

text \<open>
  C9, amended: the call is rejected exactly when some id is not a registered agent id;
  on success exactly the given ids leave \<open>pending_agent_ids\<close>, nothing else changes, and
  \<open>pending_agent_ids\<close> stays within \<open>agent_ids\<close> if it was.
\<close>

theorem remove_pending_agent_ids_spec:
  "(remove_pending_agent_ids s ids = Inl AssertionError \<longleftrightarrow> \<not> set ids \<subseteq> set (agent_ids s))
   \<and> (set ids \<subseteq> set (agent_ids s) \<longrightarrow>
        (\<exists>s'. remove_pending_agent_ids s ids = Inr s'
           \<and> set (pending_agent_ids s') = set (pending_agent_ids s) - set ids
           \<and> agent_ids s' = agent_ids s
           \<and> (set (pending_agent_ids s) \<subseteq> set (agent_ids s) \<longrightarrow>
                set (pending_agent_ids s') \<subseteq> set (agent_ids s'))))"
  by (auto simp: remove_pending_agent_ids_def agent_ids_def)

theorem remove_pending_agent_ids_spec_witness:
  "set [''a''] \<subseteq> set (agent_ids
      (manager0\<lparr>ego_agent_ids := [''a'', ''b''], pending_agent_ids := [''a'', ''b'']\<rparr>))
   \<and> set (pending_agent_ids
      (manager0\<lparr>ego_agent_ids := [''a'', ''b''], pending_agent_ids := [''a'', ''b'']\<rparr>))
       \<subseteq> set (agent_ids
      (manager0\<lparr>ego_agent_ids := [''a'', ''b''], pending_agent_ids := [''a'', ''b'']\<rparr>))
   \<and> (\<exists>s'. remove_pending_agent_ids
      (manager0\<lparr>ego_agent_ids := [''a'', ''b''], pending_agent_ids := [''a'', ''b'']\<rparr>) [''a'']
        = Inr s'
        \<and> set (pending_agent_ids s') = {''b''}
        \<and> set (pending_agent_ids s') \<subseteq> set (agent_ids s'))
   \<and> remove_pending_agent_ids
      (manager0\<lparr>ego_agent_ids := [''a'', ''b''], pending_agent_ids := [''a'', ''b'']\<rparr>) [''c'']
       = Inl AssertionError"
  using remove_pending_agent_ids_spec
    [of "manager0\<lparr>ego_agent_ids := [''a'', ''b''], pending_agent_ids := [''a'', ''b'']\<rparr>"
      "[''a'']"]
    remove_pending_agent_ids_spec
    [of "manager0\<lparr>ego_agent_ids := [''a'', ''b''], pending_agent_ids := [''a'', ''b'']\<rparr>"
      "[''c'']"]
  by (auto simp: agent_ids_def manager0_def)

section \<open>Observing vehicles that carry sensors without an agent\<close>

lemma observe_from_loop_unbound:
  "\<exists>v\<in>set vs. vehicle_with_sensors s v = None \<Longrightarrow>
     observe_from_loop sim s vs acc = Inl KeyError"
proof (induction vs arbitrary: acc)
  case Nil
  then show ?case by simp
next
  case (Cons v vs)
  obtain ob rw dn sc where acc: "acc = (ob, rw, dn, sc)" by (metis prod_cases4)
  show ?case
  proof (cases "vehicle_with_sensors s v")
    case None
    then show ?thesis by (simp add: acc)
  next
    case (Some a)
    with Cons.prems have "\<exists>v\<in>set vs. vehicle_with_sensors s v = None" by auto
    then show ?thesis using Cons.IH Some by (simp add: acc Let_def split: prod.splits)
  qed
qed

lemma observe_from_loop_returns:
  "\<forall>v\<in>set vs. vehicle_with_sensors s v \<noteq> None \<Longrightarrow>
     \<exists>acc'. observe_from_loop sim s vs acc = Inr acc'"
proof (induction vs arbitrary: acc)
  case Nil
  show ?case by (cases acc rule: prod_cases4) simp
next
  case (Cons v vs)
  obtain ob rw dn sc where acc: "acc = (ob, rw, dn, sc)" by (metis prod_cases4)
  from Cons.prems obtain a where a: "vehicle_with_sensors s v = Some a" by auto
  from Cons.prems have rest: "\<forall>v\<in>set vs. vehicle_with_sensors s v \<noteq> None" by simp
  let ?veh = "vehicle_by_id sim v"
  obtain ob' dn' where so:
    "Sensors_observe sim a (sensor_state_for_vehicle_id sim (ident ?veh)) ?veh = (ob', dn')"
    by (cases "Sensors_observe sim a (sensor_state_for_vehicle_id sim (ident ?veh)) ?veh") simp
  let ?acc = "(ob(a \<mapsto> ob'), rw(a \<mapsto> trip_meter_sensor ?veh True),
        dn(a \<mapsto> dn'), sc(a \<mapsto> trip_meter_sensor ?veh False))"
  have "observe_from_loop sim s (v # vs) acc = observe_from_loop sim s vs ?acc"
    by (simp add: acc a so Let_def)
  with Cons.IH [OF rest, of ?acc] show ?case by simp
qed

lemma observe_from_loop_dom:
  "observe_from_loop sim s vs (ob0, rw0, dn0, sc0) = Inr (ob, rw, dn, sc) \<Longrightarrow>
     dom ob = dom ob0 \<union> (\<lambda>v. the (vehicle_with_sensors s v)) ` set vs
     \<and> dom rw = dom rw0 \<union> (\<lambda>v. the (vehicle_with_sensors s v)) ` set vs
     \<and> dom dn = dom dn0 \<union> (\<lambda>v. the (vehicle_with_sensors s v)) ` set vs
     \<and> dom sc = dom sc0 \<union> (\<lambda>v. the (vehicle_with_sensors s v)) ` set vs"
proof (induction vs arbitrary: ob0 rw0 dn0 sc0)
  case Nil
  then show ?case by simp
next
  case (Cons v vs)
  let ?veh = "vehicle_by_id sim v"
  let ?K = "(\<lambda>v. the (vehicle_with_sensors s v)) ` set vs"
  let ?K' = "(\<lambda>v. the (vehicle_with_sensors s v)) ` set (v # vs)"
  from Cons.prems obtain a where a: "vehicle_with_sensors s v = Some a"
    by (cases "vehicle_with_sensors s v") (simp_all add: Let_def)
  obtain ob' dn' where so:
    "Sensors_observe sim a (sensor_state_for_vehicle_id sim (ident ?veh)) ?veh = (ob', dn')"
    by (cases "Sensors_observe sim a (sensor_state_for_vehicle_id sim (ident ?veh)) ?veh") simp
  from Cons.prems have r:
    "observe_from_loop sim s vs (ob0(a \<mapsto> ob'), rw0(a \<mapsto> trip_meter_sensor ?veh True),
        dn0(a \<mapsto> dn'), sc0(a \<mapsto> trip_meter_sensor ?veh False)) = Inr (ob, rw, dn, sc)"
    by (simp add: a so Let_def)
  note ih = Cons.IH [OF r]
  have k: "?K' = insert a ?K"
    using a by simp
  from ih have "dom ob = dom (ob0(a \<mapsto> ob')) \<union> ?K" by (rule conjunct1)
  then have 1: "dom ob = dom ob0 \<union> ?K'"
    unfolding k by simp
  from ih have "dom rw = dom (rw0(a \<mapsto> trip_meter_sensor ?veh True)) \<union> ?K"
    by (rule conjunct2 [THEN conjunct1])
  then have 2: "dom rw = dom rw0 \<union> ?K'"
    unfolding k by simp
  from ih have "dom dn = dom (dn0(a \<mapsto> dn')) \<union> ?K"
    by (rule conjunct2 [THEN conjunct2, THEN conjunct1])
  then have 3: "dom dn = dom dn0 \<union> ?K'"
    unfolding k by simp
  from ih have "dom sc = dom (sc0(a \<mapsto> trip_meter_sensor ?veh False)) \<union> ?K"
    by (rule conjunct2 [THEN conjunct2, THEN conjunct2])
  then have 4: "dom sc = dom sc0 \<union> ?K'"
    unfolding k by simp
  from 1 2 3 4 show ?case by (intro conjI)
qed

text \<open>
  C10: \<open>observe_from\<close> is defined exactly for vehicles that \<open>attach_sensors_to_vehicles\<close>
  has bound. If some vehicle id of the input has no entry in \<open>vehicle_with_sensors\<close>, the
  lookup of its agent id raises \<open>KeyError\<close>. If every vehicle id has an entry, the call
  returns, and each of observations, rewards, scores and dones has exactly the agent ids
  bound to the given vehicles as its keys; where the entries are the ones that
  \<open>attach_sensors_to_vehicles\<close> writes, these keys are \<open>Agent-\<close> followed by the vehicle id.
\<close>

theorem observe_from_bound_vehicles:
  "((\<exists>v\<in>set vehicle_ids. vehicle_with_sensors s v = None) \<longrightarrow>
      observe_from sim s vehicle_ids = Inl KeyError)
   \<and> ((\<forall>v\<in>set vehicle_ids. vehicle_with_sensors s v \<noteq> None) \<longrightarrow>
      (\<exists>observations rewards scores dones.
         observe_from sim s vehicle_ids = Inr (observations, rewards, scores, dones)
         \<and> dom observations = (\<lambda>v. the (vehicle_with_sensors s v)) ` set vehicle_ids
         \<and> dom rewards = (\<lambda>v. the (vehicle_with_sensors s v)) ` set vehicle_ids
         \<and> dom scores = (\<lambda>v. the (vehicle_with_sensors s v)) ` set vehicle_ids
         \<and> dom dones = (\<lambda>v. the (vehicle_with_sensors s v)) ` set vehicle_ids))
   \<and> ((\<forall>v\<in>set vehicle_ids. vehicle_with_sensors s v = Some (''Agent-'' @ v)) \<longrightarrow>
      (\<exists>observations rewards scores dones.
         observe_from sim s vehicle_ids = Inr (observations, rewards, scores, dones)
         \<and> dom observations = (\<lambda>v. ''Agent-'' @ v) ` set vehicle_ids
         \<and> dom rewards = (\<lambda>v. ''Agent-'' @ v) ` set vehicle_ids
         \<and> dom scores = (\<lambda>v. ''Agent-'' @ v) ` set vehicle_ids
         \<and> dom dones = (\<lambda>v. ''Agent-'' @ v) ` set vehicle_ids))"
proof -
  let ?K = "(\<lambda>v. the (vehicle_with_sensors s v)) ` set vehicle_ids"
  have p1: "(\<exists>v\<in>set vehicle_ids. vehicle_with_sensors s v = None) \<longrightarrow>
      observe_from sim s vehicle_ids = Inl KeyError"
    by (simp add: observe_from_def observe_from_loop_unbound)
  have p2: "\<exists>observations rewards scores dones.
         observe_from sim s vehicle_ids = Inr (observations, rewards, scores, dones)
         \<and> dom observations = ?K \<and> dom rewards = ?K \<and> dom scores = ?K \<and> dom dones = ?K"
    if b: "\<forall>v\<in>set vehicle_ids. vehicle_with_sensors s v \<noteq> None"
  proof -
    from observe_from_loop_returns [OF b, where sim = sim
        and acc = "(Map.empty, Map.empty, Map.empty, Map.empty)"]
    obtain acc' where
      "observe_from_loop sim s vehicle_ids (Map.empty, Map.empty, Map.empty, Map.empty) = Inr acc'"
      by (elim exE)
    then obtain ob rw dn sc where r:
      "observe_from_loop sim s vehicle_ids (Map.empty, Map.empty, Map.empty, Map.empty)
         = Inr (ob, rw, dn, sc)"
      by (cases acc' rule: prod_cases4) simp
    note d = observe_from_loop_dom [OF r]
    have 0: "observe_from sim s vehicle_ids = Inr (ob, rw, sc, dn)"
      by (simp add: observe_from_def r)
    from d have 1: "dom ob = ?K" by simp
    from d have 2: "dom rw = ?K" by simp
    from d have 3: "dom sc = ?K" by simp
    from d have 4: "dom dn = ?K" by simp
    from 0 1 2 3 4 show ?thesis by (intro exI conjI)
  qed
  have p3: "\<exists>observations rewards scores dones.
         observe_from sim s vehicle_ids = Inr (observations, rewards, scores, dones)
         \<and> dom observations = (\<lambda>v. ''Agent-'' @ v) ` set vehicle_ids
         \<and> dom rewards = (\<lambda>v. ''Agent-'' @ v) ` set vehicle_ids
         \<and> dom scores = (\<lambda>v. ''Agent-'' @ v) ` set vehicle_ids
         \<and> dom dones = (\<lambda>v. ''Agent-'' @ v) ` set vehicle_ids"
    if syn: "\<forall>v\<in>set vehicle_ids. vehicle_with_sensors s v = Some (''Agent-'' @ v)"
  proof -
    from syn have b: "\<forall>v\<in>set vehicle_ids. vehicle_with_sensors s v \<noteq> None" by simp
    from syn have k: "?K = (\<lambda>v. ''Agent-'' @ v) ` set vehicle_ids"
      by (intro image_cong refl) simp
    from p2 [OF b] show ?thesis unfolding k .
  qed
  show ?thesis
  proof (intro conjI)
    show "(\<exists>v\<in>set vehicle_ids. vehicle_with_sensors s v = None) \<longrightarrow>
      observe_from sim s vehicle_ids = Inl KeyError"
      by (rule p1)
  qed (rule impI, erule p2, rule impI, erule p3)
qed

theorem observe_from_bound_vehicles_witness:
  "vehicle_with_sensors
     (attach_sensors_to_vehicles manager0 \<lparr>action_space = OtherActionSpace\<rparr> [''v1'']) ''v1''
       = Some ''Agent-v1''
   \<and> vehicle_with_sensors
     (attach_sensors_to_vehicles manager0 \<lparr>action_space = OtherActionSpace\<rparr> [''v1'']) ''v2''
       = None
   \<and> observe_from sim0
        (attach_sensors_to_vehicles manager0 \<lparr>action_space = OtherActionSpace\<rparr> [''v1''])
        [''v1'', ''v2''] = Inl KeyError
   \<and> (\<exists>observations rewards scores dones.
        observe_from sim0
          (attach_sensors_to_vehicles manager0 \<lparr>action_space = OtherActionSpace\<rparr> [''v1''])
          [''v1''] = Inr (observations, rewards, scores, dones)
        \<and> dom observations = {''Agent-v1''} \<and> dom rewards = {''Agent-v1''}
        \<and> dom scores = {''Agent-v1''} \<and> dom dones = {''Agent-v1''})"
proof -
  let ?s = "attach_sensors_to_vehicles manager0 \<lparr>action_space = OtherActionSpace\<rparr> [''v1'']"
  have b1: "vehicle_with_sensors ?s ''v1'' = Some ''Agent-v1''"
    by (simp add: manager0_def Let_def)
  have b2: "vehicle_with_sensors ?s ''v2'' = None"
    by (simp add: manager0_def Let_def)
  from b2 have h1: "\<exists>v\<in>set [''v1'', ''v2'']. vehicle_with_sensors ?s v = None"
    by simp
  from b1 have h2: "\<forall>v\<in>set [''v1'']. vehicle_with_sensors ?s v \<noteq> None"
    by simp
  from b1 have h3: "\<forall>v\<in>set [''v1'']. vehicle_with_sensors ?s v = Some (''Agent-'' @ v)"
    by simp
  have k: "(\<lambda>v. the (vehicle_with_sensors ?s v)) ` set [''v1''] = {''Agent-v1''}"
    using b1 by simp
  have k': "(\<lambda>v. ''Agent-'' @ v) ` set [''v1''] = {''Agent-v1''}"
    by simp
  note t = observe_from_bound_vehicles [of "[''v1'', ''v2'']" ?s sim0]
  note u = observe_from_bound_vehicles [of "[''v1'']" ?s sim0]
  from t h1 have t1: "observe_from sim0 ?s [''v1'', ''v2''] = Inl KeyError"
    by blast
  from u h2 have t2: "\<exists>observations rewards scores dones.
        observe_from sim0 ?s [''v1''] = Inr (observations, rewards, scores, dones)
        \<and> dom observations = (\<lambda>v. the (vehicle_with_sensors ?s v)) ` set [''v1'']
        \<and> dom rewards = (\<lambda>v. the (vehicle_with_sensors ?s v)) ` set [''v1'']
        \<and> dom scores = (\<lambda>v. the (vehicle_with_sensors ?s v)) ` set [''v1'']
        \<and> dom dones = (\<lambda>v. the (vehicle_with_sensors ?s v)) ` set [''v1'']"
    by blast
  from u h3 have t3: "\<exists>observations rewards scores dones.
        observe_from sim0 ?s [''v1''] = Inr (observations, rewards, scores, dones)
        \<and> dom observations = (\<lambda>v. ''Agent-'' @ v) ` set [''v1'']
        \<and> dom rewards = (\<lambda>v. ''Agent-'' @ v) ` set [''v1'']
        \<and> dom scores = (\<lambda>v. ''Agent-'' @ v) ` set [''v1'']
        \<and> dom dones = (\<lambda>v. ''Agent-'' @ v) ` set [''v1'']"
    by blast
  from b1 b2 t1 t3 [unfolded k'] show ?thesis by (intro conjI)
qed

section \<open>Sensors for vehicles without an agent\<close>

lemma attach_count_append [simp]:
  "attach_count v (xs @ ys) = attach_count v xs + attach_count v ys"
  by (simp add: attach_count_def)

lemma attach_count_simps [simp]:
  "attach_count v [] = 0"
  "attach_count v (MissionPlannerPlan # tr) = attach_count v tr"
  "attach_count v (AttachSensorsToVehicle w i # tr) = (if w = v then 1 else 0) + attach_count v tr"
  by (simp_all add: attach_count_def is_attach_def)

lemma attach_sensors_bound_noop:
  "\<forall>v\<in>set ws. vehicle_with_sensors s v \<noteq> None \<Longrightarrow> attach_sensors_to_vehicles s i ws = s"
  by (induction ws) simp_all

lemma vehicle_with_sensors_attach:
  "vehicle_with_sensors (attach_sensors_to_vehicles s i vs) v =
     (if vehicle_with_sensors s v \<noteq> None then vehicle_with_sensors s v
      else if v \<in> set vs then Some (''Agent-'' @ v) else None)"
  by (induction vs arbitrary: s) (auto simp: Let_def)

lemma attach_count_attach:
  "attach_count v (trace (attach_sensors_to_vehicles s i vs)) =
     attach_count v (trace s) + (if vehicle_with_sensors s v = None \<and> v \<in> set vs then 1 else 0)"
  by (induction vs arbitrary: s) (auto simp: Let_def)

lemma agent_interfaces_attach:
  "agent_interfaces (attach_sensors_to_vehicles s i vs) a =
     (if \<exists>v\<in>set vs. vehicle_with_sensors s v = None \<and> a = ''Agent-'' @ v then Some i
      else agent_interfaces s a)"
  by (induction vs arbitrary: s) (auto simp: Let_def)

text \<open>
  C7: \<open>attach_sensors_to_vehicles\<close> is idempotent per vehicle id. For a vehicle id of the
  call that has no entry in \<open>vehicle_with_sensors\<close> yet, the call records the agent id
  \<open>Agent-\<close> followed by the vehicle id (a function of the vehicle id alone), stores the
  given interface under that agent id and attaches sensors to the vehicle exactly once,
  also when the id occurs several times in the call. A vehicle id that already has an
  entry keeps it and gets no further sensors. Any later call (with any interface) for
  vehicle ids that are bound by then returns the manager unchanged, trace included.
\<close>

theorem attach_sensors_to_vehicles_idempotent:
  "(\<forall>v\<in>set vehicle_ids. vehicle_with_sensors s v = None \<longrightarrow>
       vehicle_with_sensors (attach_sensors_to_vehicles s i vehicle_ids) v = Some (''Agent-'' @ v)
     \<and> agent_interfaces (attach_sensors_to_vehicles s i vehicle_ids) (''Agent-'' @ v) = Some i
     \<and> attach_count v (trace (attach_sensors_to_vehicles s i vehicle_ids))
         = attach_count v (trace s) + 1)
   \<and> (\<forall>v. vehicle_with_sensors s v \<noteq> None \<longrightarrow>
       vehicle_with_sensors (attach_sensors_to_vehicles s i vehicle_ids) v
         = vehicle_with_sensors s v
     \<and> attach_count v (trace (attach_sensors_to_vehicles s i vehicle_ids))
         = attach_count v (trace s))
   \<and> (\<forall>ws i'. set ws \<subseteq> set vehicle_ids \<union> dom (vehicle_with_sensors s) \<longrightarrow>
       attach_sensors_to_vehicles (attach_sensors_to_vehicles s i vehicle_ids) i' ws
         = attach_sensors_to_vehicles s i vehicle_ids)"
proof (intro conjI ballI allI impI)
  fix v assume "v \<in> set vehicle_ids" "vehicle_with_sensors s v = None"
  then show "vehicle_with_sensors (attach_sensors_to_vehicles s i vehicle_ids) v
      = Some (''Agent-'' @ v)"
    by (simp add: vehicle_with_sensors_attach)
  from \<open>v \<in> set vehicle_ids\<close> \<open>vehicle_with_sensors s v = None\<close>
  show "agent_interfaces (attach_sensors_to_vehicles s i vehicle_ids) (''Agent-'' @ v) = Some i"
    by (auto simp: agent_interfaces_attach)
  from \<open>v \<in> set vehicle_ids\<close> \<open>vehicle_with_sensors s v = None\<close>
  show "attach_count v (trace (attach_sensors_to_vehicles s i vehicle_ids))
      = attach_count v (trace s) + 1"
    by (simp add: attach_count_attach)
next
  fix v assume "vehicle_with_sensors s v \<noteq> None"
  then show "vehicle_with_sensors (attach_sensors_to_vehicles s i vehicle_ids) v
      = vehicle_with_sensors s v"
    by (simp add: vehicle_with_sensors_attach)
  from \<open>vehicle_with_sensors s v \<noteq> None\<close>
  show "attach_count v (trace (attach_sensors_to_vehicles s i vehicle_ids))
      = attach_count v (trace s)"
    by (simp add: attach_count_attach)
next
  fix ws i' assume sub: "set ws \<subseteq> set vehicle_ids \<union> dom (vehicle_with_sensors s)"
  have "\<forall>v\<in>set ws. vehicle_with_sensors (attach_sensors_to_vehicles s i vehicle_ids) v \<noteq> None"
  proof
    fix v assume "v \<in> set ws"
    with sub have "v \<in> set vehicle_ids \<or> vehicle_with_sensors s v \<noteq> None" by auto
    then show "vehicle_with_sensors (attach_sensors_to_vehicles s i vehicle_ids) v \<noteq> None"
      by (auto simp: vehicle_with_sensors_attach)
  qed
  then show "attach_sensors_to_vehicles (attach_sensors_to_vehicles s i vehicle_ids) i' ws
      = attach_sensors_to_vehicles s i vehicle_ids"
    by (rule attach_sensors_bound_noop)
qed

theorem attach_sensors_to_vehicles_idempotent_witness:
  "vehicle_with_sensors manager0 ''v1'' = None
   \<and> attach_sensors_to_vehicles manager0 \<lparr>action_space = OtherActionSpace\<rparr> [''v1'', ''v1'']
       = manager0\<lparr>vehicle_with_sensors := [''v1'' \<mapsto> ''Agent-v1''],
           agent_interfaces := [''Agent-v1'' \<mapsto> \<lparr>action_space = OtherActionSpace\<rparr>],
           trace := [MissionPlannerPlan,
                     AttachSensorsToVehicle ''v1'' \<lparr>action_space = OtherActionSpace\<rparr>]\<rparr>
   \<and> vehicle_with_sensors
        (attach_sensors_to_vehicles manager0 \<lparr>action_space = OtherActionSpace\<rparr> [''v1'', ''v1''])
        ''v1'' = Some ''Agent-v1''
   \<and> attach_count ''v1'' (trace
        (attach_sensors_to_vehicles manager0 \<lparr>action_space = OtherActionSpace\<rparr> [''v1'', ''v1'']))
       = 1
   \<and> attach_sensors_to_vehicles
        (attach_sensors_to_vehicles manager0 \<lparr>action_space = OtherActionSpace\<rparr> [''v1'', ''v1''])
        \<lparr>action_space = MultiTargetPose\<rparr> [''v1'']
       = attach_sensors_to_vehicles manager0 \<lparr>action_space = OtherActionSpace\<rparr> [''v1'', ''v1'']
   \<and> vehicle_with_sensors (manager0\<lparr>vehicle_with_sensors := [''v1'' \<mapsto> ''Agent-v1'']\<rparr>) ''v1''
       \<noteq> None
   \<and> attach_count ''v1'' (trace (attach_sensors_to_vehicles
        (manager0\<lparr>vehicle_with_sensors := [''v1'' \<mapsto> ''Agent-v1'']\<rparr>)
        \<lparr>action_space = MultiTargetPose\<rparr> [''v1'', ''v2''])) = 0"
proof -
  let ?i = "\<lparr>action_space = OtherActionSpace\<rparr>"
  let ?j = "\<lparr>action_space = MultiTargetPose\<rparr>"
  let ?s1 = "manager0\<lparr>vehicle_with_sensors := [''v1'' \<mapsto> ''Agent-v1'']\<rparr>"
  note t = attach_sensors_to_vehicles_idempotent [of "[''v1'', ''v1'']" manager0 ?i]
  note u = attach_sensors_to_vehicles_idempotent [of "[''v1'', ''v2'']" ?s1 ?j]
  have h0: "vehicle_with_sensors manager0 ''v1'' = None"
    by (simp add: manager0_def)
  have h1: "''v1'' \<in> set [''v1'', ''v1'']" by simp
  have h2: "set [''v1''] \<subseteq> set [''v1'', ''v1''] \<union> dom (vehicle_with_sensors manager0)"
    by simp
  have h3: "vehicle_with_sensors ?s1 ''v1'' \<noteq> None" by simp
  have c0: "attach_count ''v1'' (trace manager0) = 0" by (simp add: manager0_def)
  have c1: "attach_count ''v1'' (trace ?s1) = 0" by (simp add: manager0_def)
  have e: "attach_sensors_to_vehicles manager0 ?i [''v1'', ''v1'']
       = manager0\<lparr>vehicle_with_sensors := [''v1'' \<mapsto> ''Agent-v1''],
           agent_interfaces := [''Agent-v1'' \<mapsto> ?i],
           trace := [MissionPlannerPlan, AttachSensorsToVehicle ''v1'' ?i]\<rparr>"
    by (simp add: manager0_def Let_def)
  from t have a: "vehicle_with_sensors (attach_sensors_to_vehicles manager0 ?i [''v1'', ''v1''])
        ''v1'' = Some ''Agent-v1''"
    using h0 h1 by simp
  from t have b: "attach_count ''v1'' (trace (attach_sensors_to_vehicles manager0 ?i [''v1'', ''v1'']))
       = 1"
    using h0 h1 c0 by simp
  from t h2 have c: "attach_sensors_to_vehicles
        (attach_sensors_to_vehicles manager0 ?i [''v1'', ''v1'']) ?j [''v1'']
       = attach_sensors_to_vehicles manager0 ?i [''v1'', ''v1'']"
    by blast
  from u h3 have d: "attach_count ''v1'' (trace (attach_sensors_to_vehicles ?s1 ?j [''v1'', ''v2'']))
       = attach_count ''v1'' (trace ?s1)"
    by blast
  from h0 e a b c h3 d [unfolded c1] show ?thesis by (intro conjI)
qed

section \<open>Teardown of social agents\<close>

lemma terminate_calls_append [simp]:
  "terminate_calls (xs @ ys) = terminate_calls xs @ terminate_calls ys"
  by (simp add: terminate_calls_def)

lemma terminate_calls_simps [simp]:
  "terminate_calls [] = []"
  "terminate_calls (Terminate h # tr) = h # terminate_calls tr"
  "terminate_calls (LogDebug m # tr) = terminate_calls tr"
  by (simp_all add: terminate_calls_def)

lemma terminate_calls_map_Terminate [simp]:
  "terminate_calls (map (\<lambda>a. Terminate (f a)) ids) = map f ids"
  by (induction ids) simp_all

lemma set_diff_Nil [simp]: "set_diff xs [] = xs"
  by (simp add: set_diff_def)

lemma map_of_delete_other:
  "a \<noteq> b \<Longrightarrow> map_of (AList.delete b al) a = map_of al a"
  by (simp add: delete_conv')

lemma map_of_delete_same:
  "map_of (AList.delete b al) b = None"
  by (simp add: delete_conv')

subsection \<open>\<open>_teardown_agents_by_ids\<close>\<close>

lemma pop_interfaces_fields:
  "agent_interfaces (fold (\<lambda>agent_id s.
       s\<lparr>agent_interfaces := (agent_interfaces s)(agent_id := None)\<rparr>) ids s) a
     = (if a \<in> set ids then None else agent_interfaces s a)"
  "social_agent_ids (fold (\<lambda>agent_id s.
       s\<lparr>agent_interfaces := (agent_interfaces s)(agent_id := None)\<rparr>) ids s)
     = social_agent_ids s"
  "remote_social_agents (fold (\<lambda>agent_id s.
       s\<lparr>agent_interfaces := (agent_interfaces s)(agent_id := None)\<rparr>) ids s)
     = remote_social_agents s"
  "agent_data_models (fold (\<lambda>agent_id s.
       s\<lparr>agent_interfaces := (agent_interfaces s)(agent_id := None)\<rparr>) ids s)
     = agent_data_models s"
  "trace (fold (\<lambda>agent_id s.
       s\<lparr>agent_interfaces := (agent_interfaces s)(agent_id := None)\<rparr>) ids s)
     = trace s"
  by (induction ids arbitrary: s; simp)+

lemma teardown_agents_by_ids_fields:
  "fst (teardown_agents_by_ids s ids filter_ids)
     = (case filter_ids of None \<Rightarrow> ids | Some f \<Rightarrow> set_inter ids f)"
  "agent_interfaces (snd (teardown_agents_by_ids s ids filter_ids)) a
     = (if a \<in> set (fst (teardown_agents_by_ids s ids filter_ids)) then None
        else agent_interfaces s a)"
  "social_agent_ids (snd (teardown_agents_by_ids s ids filter_ids)) = social_agent_ids s"
  "remote_social_agents (snd (teardown_agents_by_ids s ids filter_ids)) = remote_social_agents s"
  "agent_data_models (snd (teardown_agents_by_ids s ids filter_ids)) = agent_data_models s"
  "trace (snd (teardown_agents_by_ids s ids filter_ids))
     = trace s @ (if fst (teardown_agents_by_ids s ids filter_ids) \<noteq> []
                  then [LogDebug (TearingDownAgents (fst (teardown_agents_by_ids s ids filter_ids)))]
                  else [])"
  by (simp_all add: teardown_agents_by_ids_def Let_def pop_interfaces_fields log_debug_def)

lemma teardown_agents_by_ids_Nil:
  "(case filter_ids of None \<Rightarrow> ids | Some f \<Rightarrow> set_inter ids f) = [] \<Longrightarrow>
     teardown_agents_by_ids s ids filter_ids = ([], s)"
  by (simp add: teardown_agents_by_ids_def Let_def)

subsection \<open>The loop over the agents to remove\<close>

lemma terminate_loop_Cons_ok:
  "map_of (remote_social_agents s) x = Some h \<Longrightarrow> \<not> terminate_raises env h \<Longrightarrow>
   agent_data_models s x = Some m \<Longrightarrow>
     terminate_loop env (x # rest) s =
       terminate_loop env rest
         (s\<lparr>trace := trace s @ [Terminate h],
            remote_social_agents := AList.delete x (remote_social_agents s),
            agent_data_models := (agent_data_models s)(x := None)\<rparr>)"
  by (simp add: Let_def)

lemma terminate_loop_Cons_raises:
  "map_of (remote_social_agents s) x = Some h \<Longrightarrow> terminate_raises env h \<Longrightarrow>
     terminate_loop env (x # rest) s = (Some TerminateError, s\<lparr>trace := trace s @ [Terminate h]\<rparr>)"
  by (simp add: Let_def)

lemma terminate_loop_ok:
  assumes "distinct ids"
    and "\<forall>a\<in>set ids. \<exists>h. map_of (remote_social_agents s) a = Some h \<and> \<not> terminate_raises env h"
    and "\<forall>a\<in>set ids. agent_data_models s a \<noteq> None"
  shows "fst (terminate_loop env ids s) = None
     \<and> trace (snd (terminate_loop env ids s))
         = trace s @ map (\<lambda>a. Terminate (the (map_of (remote_social_agents s) a))) ids
     \<and> (\<forall>a. map_of (remote_social_agents (snd (terminate_loop env ids s))) a
            = (if a \<in> set ids then None else map_of (remote_social_agents s) a))
     \<and> (\<forall>a. agent_data_models (snd (terminate_loop env ids s)) a
            = (if a \<in> set ids then None else agent_data_models s a))
     \<and> social_agent_ids (snd (terminate_loop env ids s)) = social_agent_ids s
     \<and> agent_interfaces (snd (terminate_loop env ids s)) = agent_interfaces s"
  using assms
proof (induction ids arbitrary: s)
  case Nil
  show ?case by simp
next
  case (Cons x rest)
  from Cons.prems(2) obtain h where h: "map_of (remote_social_agents s) x = Some h"
    and nr: "\<not> terminate_raises env h" by auto
  from Cons.prems(3) obtain m where m: "agent_data_models s x = Some m" by auto
  let ?s3 = "s\<lparr>trace := trace s @ [Terminate h],
            remote_social_agents := AList.delete x (remote_social_agents s),
            agent_data_models := (agent_data_models s)(x := None)\<rparr>"
  have step: "terminate_loop env (x # rest) s = terminate_loop env rest ?s3"
    using h nr m by (rule terminate_loop_Cons_ok)
  from Cons.prems(1) have x: "x \<notin> set rest" and d: "distinct rest" by simp_all
  have same: "map_of (remote_social_agents ?s3) a = map_of (remote_social_agents s) a"
    if "a \<in> set rest" for a
  proof -
    from that x have "a \<noteq> x" by auto
    then show ?thesis by (simp add: map_of_delete_other)
  qed
  have p2: "\<forall>a\<in>set rest. \<exists>h. map_of (remote_social_agents ?s3) a = Some h
      \<and> \<not> terminate_raises env h"
    using Cons.prems(2) same by simp
  have p3: "\<forall>a\<in>set rest. agent_data_models ?s3 a \<noteq> None"
    using Cons.prems(3) x by auto
  note ih = Cons.IH [OF d p2 p3]
  have 1: "fst (terminate_loop env (x # rest) s) = None"
    unfolding step using ih by (rule conjunct1)
  have "trace (snd (terminate_loop env rest ?s3))
      = trace ?s3 @ map (\<lambda>a. Terminate (the (map_of (remote_social_agents ?s3) a))) rest"
    using ih by (rule conjunct2 [THEN conjunct1])
  moreover have "map (\<lambda>a. Terminate (the (map_of (remote_social_agents ?s3) a))) rest
      = map (\<lambda>a. Terminate (the (map_of (remote_social_agents s) a))) rest"
    using same by (intro map_cong refl) simp
  ultimately have 2: "trace (snd (terminate_loop env (x # rest) s))
      = trace s @ map (\<lambda>a. Terminate (the (map_of (remote_social_agents s) a))) (x # rest)"
    unfolding step using h by simp
  have 3: "\<forall>a. map_of (remote_social_agents (snd (terminate_loop env (x # rest) s))) a
            = (if a \<in> set (x # rest) then None else map_of (remote_social_agents s) a)"
  proof
    fix a
    from ih have "map_of (remote_social_agents (snd (terminate_loop env rest ?s3))) a
            = (if a \<in> set rest then None else map_of (remote_social_agents ?s3) a)"
      by blast
    then show "map_of (remote_social_agents (snd (terminate_loop env (x # rest) s))) a
            = (if a \<in> set (x # rest) then None else map_of (remote_social_agents s) a)"
      unfolding step by (simp add: delete_conv')
  qed
  have 4: "\<forall>a. agent_data_models (snd (terminate_loop env (x # rest) s)) a
            = (if a \<in> set (x # rest) then None else agent_data_models s a)"
  proof
    fix a
    from ih have "agent_data_models (snd (terminate_loop env rest ?s3)) a
            = (if a \<in> set rest then None else agent_data_models ?s3 a)"
      by blast
    then show "agent_data_models (snd (terminate_loop env (x # rest) s)) a
            = (if a \<in> set (x # rest) then None else agent_data_models s a)"
      unfolding step by simp
  qed
  from ih have "social_agent_ids (snd (terminate_loop env rest ?s3)) = social_agent_ids ?s3"
    by blast
  then have 5: "social_agent_ids (snd (terminate_loop env (x # rest) s)) = social_agent_ids s"
    unfolding step by simp
  from ih have "agent_interfaces (snd (terminate_loop env rest ?s3)) = agent_interfaces ?s3"
    by blast
  then have 6: "agent_interfaces (snd (terminate_loop env (x # rest) s)) = agent_interfaces s"
    unfolding step by simp
  from 1 2 3 4 5 6 show ?case by (intro conjI)
qed

lemma terminate_loop_raises:
  assumes "distinct ids"
    and "\<forall>b\<in>set ids. map_of (remote_social_agents s) b \<noteq> None \<and> agent_data_models s b \<noteq> None"
    and "a \<in> set ids"
    and "map_of (remote_social_agents s) a = Some h"
    and "terminate_raises env h"
  shows "fst (terminate_loop env ids s) = Some TerminateError
     \<and> map_of (remote_social_agents (snd (terminate_loop env ids s))) a = Some h
     \<and> agent_data_models (snd (terminate_loop env ids s)) a = agent_data_models s a
     \<and> social_agent_ids (snd (terminate_loop env ids s)) = social_agent_ids s
     \<and> agent_interfaces (snd (terminate_loop env ids s)) = agent_interfaces s
     \<and> terminate_calls (trace (snd (terminate_loop env ids s))) \<noteq> []
     \<and> terminate_raises env (last (terminate_calls (trace (snd (terminate_loop env ids s)))))"
  using assms
proof (induction ids arbitrary: s)
  case Nil
  then show ?case by simp
next
  case (Cons x rest)
  from Cons.prems(2) obtain hx m where hx: "map_of (remote_social_agents s) x = Some hx"
    and m: "agent_data_models s x = Some m" by auto
  show ?case
  proof (cases "terminate_raises env hx")
    case True
    have "terminate_loop env (x # rest) s
        = (Some TerminateError, s\<lparr>trace := trace s @ [Terminate hx]\<rparr>)"
      using hx True by (rule terminate_loop_Cons_raises)
    then show ?thesis using Cons.prems(4) True by simp
  next
    case False
    let ?s3 = "s\<lparr>trace := trace s @ [Terminate hx],
            remote_social_agents := AList.delete x (remote_social_agents s),
            agent_data_models := (agent_data_models s)(x := None)\<rparr>"
    have step: "terminate_loop env (x # rest) s = terminate_loop env rest ?s3"
      using hx False m by (rule terminate_loop_Cons_ok)
    from False hx Cons.prems(4,5) have ax: "a \<noteq> x" by auto
    with Cons.prems(3) have ar: "a \<in> set rest" by simp
    from Cons.prems(1) have x: "x \<notin> set rest" and d: "distinct rest" by simp_all
    have p2: "\<forall>b\<in>set rest. map_of (remote_social_agents ?s3) b \<noteq> None
        \<and> agent_data_models ?s3 b \<noteq> None"
      using Cons.prems(2) x by (auto simp: map_of_delete_other)
    have p4: "map_of (remote_social_agents ?s3) a = Some h"
      using Cons.prems(4) ax by (simp add: map_of_delete_other)
    note ih = Cons.IH [OF d p2 ar p4 Cons.prems(5)]
    have e: "agent_data_models ?s3 a = agent_data_models s a"
      "social_agent_ids ?s3 = social_agent_ids s"
      "agent_interfaces ?s3 = agent_interfaces s"
      using ax by simp_all
    show ?thesis unfolding step using ih unfolding e by (rule iffD1 [OF refl])
  qed
qed

subsection \<open>\<open>teardown_social_agents\<close>\<close>

lemma teardown_social_agents_returns:
  "fst (terminate_loop env (fst (teardown_agents_by_ids s (social_agent_ids s) filter_ids))
          (snd (teardown_agents_by_ids s (social_agent_ids s) filter_ids))) = None \<Longrightarrow>
   teardown_social_agents env s filter_ids =
     (Inr (fst (teardown_agents_by_ids s (social_agent_ids s) filter_ids)),
      (snd (terminate_loop env (fst (teardown_agents_by_ids s (social_agent_ids s) filter_ids))
          (snd (teardown_agents_by_ids s (social_agent_ids s) filter_ids))))
        \<lparr>social_agent_ids := set_diff
           (social_agent_ids (snd (terminate_loop env
              (fst (teardown_agents_by_ids s (social_agent_ids s) filter_ids))
              (snd (teardown_agents_by_ids s (social_agent_ids s) filter_ids)))))
           (fst (teardown_agents_by_ids s (social_agent_ids s) filter_ids))\<rparr>)"
  by (simp add: teardown_social_agents_def case_prod_beta)

lemma teardown_social_agents_raises:
  "fst (terminate_loop env (fst (teardown_agents_by_ids s (social_agent_ids s) filter_ids))
          (snd (teardown_agents_by_ids s (social_agent_ids s) filter_ids))) = Some e \<Longrightarrow>
   teardown_social_agents env s filter_ids =
     (Inl e, snd (terminate_loop env (fst (teardown_agents_by_ids s (social_agent_ids s) filter_ids))
          (snd (teardown_agents_by_ids s (social_agent_ids s) filter_ids))))"
  by (simp add: teardown_social_agents_def case_prod_beta)

lemma teardown_social_agents_nothing_selected:
  "(case filter_ids of None \<Rightarrow> social_agent_ids s | Some f \<Rightarrow> set_inter (social_agent_ids s) f) = []
     \<Longrightarrow> teardown_social_agents env s filter_ids = (Inr [], s)"
  by (simp add: teardown_social_agents_def teardown_agents_by_ids_Nil)

lemma set_inter_set_diff_empty:
  "set f2 \<subseteq> set ys \<Longrightarrow> set_inter (set_diff xs ys) f2 = []"
  by (auto simp: set_inter_def set_diff_def filter_empty_conv)

lemma set_diff_self [simp]: "set_diff xs xs = []"
  by (simp add: set_diff_def)

lemma set_inter_set_diff_inter [simp]: "set_inter (set_diff xs (set_inter xs f)) f = []"
  by (auto simp: set_inter_def set_diff_def filter_empty_conv)

text \<open>
  C8: removing social agents releases each handle once and is idempotent. The agents
  selected are the social agents, intersected with the filter if one is given. If each
  selected agent has a remote agent and a data model and no \<open>terminate\<close> raises, the call
  returns the selected ids, has called \<open>terminate\<close> once for each of them (and for no
  other handle), and has removed their entries and their membership. A second request
  with the same filter, or with any filter naming only removed ids, returns the empty
  set and leaves the manager exactly as it was: no further \<open>terminate\<close>.
\<close>

theorem teardown_social_agents_once:
  assumes "distinct (social_agent_ids s)"
    and "ids' = (case filter_ids of None \<Rightarrow> social_agent_ids s
                 | Some f \<Rightarrow> set_inter (social_agent_ids s) f)"
    and "\<forall>a\<in>set ids'. \<exists>h. map_of (remote_social_agents s) a = Some h \<and> \<not> terminate_raises env h"
    and "\<forall>a\<in>set ids'. agent_data_models s a \<noteq> None"
  shows "\<exists>s'. teardown_social_agents env s filter_ids = (Inr ids', s')
     \<and> set ids' = (case filter_ids of None \<Rightarrow> set (social_agent_ids s)
                    | Some f \<Rightarrow> set (social_agent_ids s) \<inter> set f)
     \<and> distinct ids'
     \<and> terminate_calls (trace s')
         = terminate_calls (trace s) @ map (\<lambda>a. the (map_of (remote_social_agents s) a)) ids'
     \<and> set (social_agent_ids s') = set (social_agent_ids s) - set ids'
     \<and> (\<forall>a\<in>set ids'. map_of (remote_social_agents s') a = None
            \<and> agent_data_models s' a = None \<and> agent_interfaces s' a = None)
     \<and> teardown_social_agents env s' filter_ids = (Inr [], s')
     \<and> (\<forall>f2. set f2 \<subseteq> set ids' \<longrightarrow> teardown_social_agents env s' (Some f2) = (Inr [], s'))"
proof -
  let ?p = "teardown_agents_by_ids s (social_agent_ids s) filter_ids"
  have ids: "fst ?p = ids'"
    by (simp add: teardown_agents_by_ids_fields assms(2))
  define s1 where "s1 = snd ?p"
  have s1: "remote_social_agents s1 = remote_social_agents s"
    "agent_data_models s1 = agent_data_models s"
    "social_agent_ids s1 = social_agent_ids s"
    "\<And>a. agent_interfaces s1 a = (if a \<in> set ids' then None else agent_interfaces s a)"
    "trace s1 = trace s @ (if ids' \<noteq> [] then [LogDebug (TearingDownAgents ids')] else [])"
    unfolding s1_def by (simp_all add: teardown_agents_by_ids_fields assms(2) [symmetric])
  have d: "distinct ids'"
    using assms(1) by (simp add: assms(2) set_inter_def split: option.splits)
  have sel: "set ids' = (case filter_ids of None \<Rightarrow> set (social_agent_ids s)
                    | Some f \<Rightarrow> set (social_agent_ids s) \<inter> set f)"
    by (simp add: assms(2) split: option.splits)
  define r where "r = terminate_loop env ids' s1"
  have p2: "\<forall>a\<in>set ids'. \<exists>h. map_of (remote_social_agents s1) a = Some h
      \<and> \<not> terminate_raises env h"
    using assms(3) by (simp add: s1)
  have p3: "\<forall>a\<in>set ids'. agent_data_models s1 a \<noteq> None"
    using assms(4) by (simp add: s1)
  note ok = terminate_loop_ok [OF d p2 p3, folded r_def]
  from ok have r1: "fst r = None" by (rule conjunct1)
  from ok have r2: "trace (snd r)
      = trace s1 @ map (\<lambda>a. Terminate (the (map_of (remote_social_agents s1) a))) ids'"
    by (rule conjunct2 [THEN conjunct1])
  from ok have r3: "\<And>a. map_of (remote_social_agents (snd r)) a
      = (if a \<in> set ids' then None else map_of (remote_social_agents s1) a)"
    by blast
  from ok have r4: "\<And>a. agent_data_models (snd r) a
      = (if a \<in> set ids' then None else agent_data_models s1 a)"
    by blast
  from ok have r5: "social_agent_ids (snd r) = social_agent_ids s1" by blast
  from ok have r6: "agent_interfaces (snd r) = agent_interfaces s1" by blast
  define s' where "s' = (snd r)\<lparr>social_agent_ids := set_diff (social_agent_ids (snd r)) ids'\<rparr>"
  have res: "teardown_social_agents env s filter_ids = (Inr ids', s')"
    using teardown_social_agents_returns [of env s filter_ids] r1
    unfolding ids s1_def [symmetric] r_def [symmetric] s'_def by simp
  have tc: "terminate_calls (trace s')
         = terminate_calls (trace s) @ map (\<lambda>a. the (map_of (remote_social_agents s) a)) ids'"
    by (simp add: s'_def r2 s1)
  have soc: "social_agent_ids s' = set_diff (social_agent_ids s) ids'"
    by (simp add: s'_def r5 s1)
  then have socset: "set (social_agent_ids s') = set (social_agent_ids s) - set ids'"
    by simp
  have gone: "\<forall>a\<in>set ids'. map_of (remote_social_agents s') a = None
            \<and> agent_data_models s' a = None \<and> agent_interfaces s' a = None"
    by (simp add: s'_def r3 r4 r6 s1)
  have "(case filter_ids of None \<Rightarrow> social_agent_ids s'
         | Some f \<Rightarrow> set_inter (social_agent_ids s') f) = []"
    by (simp add: soc assms(2) split: option.splits)
  then have again: "teardown_social_agents env s' filter_ids = (Inr [], s')"
    by (rule teardown_social_agents_nothing_selected)
  have other: "\<forall>f2. set f2 \<subseteq> set ids' \<longrightarrow> teardown_social_agents env s' (Some f2) = (Inr [], s')"
  proof (intro allI impI)
    fix f2 assume "set f2 \<subseteq> set ids'"
    then have "set_inter (social_agent_ids s') f2 = []"
      unfolding soc by (rule set_inter_set_diff_empty)
    then show "teardown_social_agents env s' (Some f2) = (Inr [], s')"
      by (intro teardown_social_agents_nothing_selected) simp
  qed
  from res sel d tc socset gone again other show ?thesis
    by (intro exI [of _ s'] conjI)
qed

theorem teardown_social_agents_once_witness:
  "distinct (social_agent_ids manager_ab)
   \<and> set_inter (social_agent_ids manager_ab) [''a'', ''c''] = [''a'']
   \<and> map_of (remote_social_agents manager_ab) ''a'' = Some 1
   \<and> \<not> terminate_raises remote_ok 1
   \<and> agent_data_models manager_ab ''a'' = Some ''model-a''
   \<and> (\<exists>s'. teardown_social_agents remote_ok manager_ab (Some [''a'', ''c'']) = (Inr [''a''], s')
          \<and> terminate_calls (trace s') = [1]
          \<and> set (social_agent_ids s') = {''b''}
          \<and> map_of (remote_social_agents s') ''a'' = None
          \<and> teardown_social_agents remote_ok s' (Some [''a'', ''c'']) = (Inr [], s')
          \<and> teardown_social_agents remote_ok s' (Some [''a'']) = (Inr [], s'))"
proof -
  have h1: "distinct (social_agent_ids manager_ab)"
    by (simp add: manager_ab_def)
  have h2: "[''a''] = (case Some [''a'', ''c''] of None \<Rightarrow> social_agent_ids manager_ab
                 | Some f \<Rightarrow> set_inter (social_agent_ids manager_ab) f)"
    by (simp add: manager_ab_def set_inter_def)
  have h3: "\<forall>a\<in>set [''a'']. \<exists>h. map_of (remote_social_agents manager_ab) a = Some h
          \<and> \<not> terminate_raises remote_ok h"
    by (simp add: manager_ab_def remote_ok_def)
  have h4: "\<forall>a\<in>set [''a'']. agent_data_models manager_ab a \<noteq> None"
    by (simp add: manager_ab_def)
  from teardown_social_agents_once [OF h1 h2 h3 h4]
  obtain s' where r: "teardown_social_agents remote_ok manager_ab (Some [''a'', ''c''])
        = (Inr [''a''], s')"
    and tc: "terminate_calls (trace s') = terminate_calls (trace manager_ab)
        @ map (\<lambda>a. the (map_of (remote_social_agents manager_ab) a)) [''a'']"
    and soc: "set (social_agent_ids s') = set (social_agent_ids manager_ab) - set [''a'']"
    and gone: "\<forall>a\<in>set [''a'']. map_of (remote_social_agents s') a = None
            \<and> agent_data_models s' a = None \<and> agent_interfaces s' a = None"
    and again: "teardown_social_agents remote_ok s' (Some [''a'', ''c'']) = (Inr [], s')"
    and other: "\<forall>f2. set f2 \<subseteq> set [''a''] \<longrightarrow>
        teardown_social_agents remote_ok s' (Some f2) = (Inr [], s')"
    by blast
  from tc have tc': "terminate_calls (trace s') = [1]"
    by (simp add: manager_ab_def)
  from soc have soc': "set (social_agent_ids s') = {''b''}"
    by (auto simp: manager_ab_def)
  from gone have gone': "map_of (remote_social_agents s') ''a'' = None"
    by simp
  from other have other': "teardown_social_agents remote_ok s' (Some [''a'']) = (Inr [], s')"
    by simp
  from r tc' soc' gone' again other'
  have "\<exists>s'. teardown_social_agents remote_ok manager_ab (Some [''a'', ''c'']) = (Inr [''a''], s')
          \<and> terminate_calls (trace s') = [1]
          \<and> set (social_agent_ids s') = {''b''}
          \<and> map_of (remote_social_agents s') ''a'' = None
          \<and> teardown_social_agents remote_ok s' (Some [''a'', ''c'']) = (Inr [], s')
          \<and> teardown_social_agents remote_ok s' (Some [''a'']) = (Inr [], s')"
    by (intro exI [of _ s'] conjI)
  moreover have "set_inter (social_agent_ids manager_ab) [''a'', ''c''] = [''a'']"
    "map_of (remote_social_agents manager_ab) ''a'' = Some 1"
    "\<not> terminate_raises remote_ok 1"
    "agent_data_models manager_ab ''a'' = Some ''model-a''"
    by (simp_all add: manager_ab_def remote_ok_def set_inter_def)
  ultimately show ?thesis using h1 by (intro conjI)
qed

text \<open>
  C6, as stated: if \<open>terminate\<close> raises during removal, the agent's remote handle entry,
  its data model and its membership in the social id set are removed all the same. The
  code has no handler around \<open>terminate\<close>: below the first \<open>terminate\<close> raises, the
  exception leaves \<open>teardown_social_agents\<close>, and agent \<open>a\<close> still has its handle, its
  data model and its membership.
\<close>

theorem teardown_social_agents_entries_kept:
  "fst (teardown_social_agents remote_broken manager_ab None) = Inl TerminateError
   \<and> map_of (remote_social_agents (snd (teardown_social_agents remote_broken manager_ab None)))
        ''a'' = Some 1
   \<and> agent_data_models (snd (teardown_social_agents remote_broken manager_ab None)) ''a''
        = Some ''model-a''
   \<and> ''a'' \<in> set (social_agent_ids (snd (teardown_social_agents remote_broken manager_ab None)))"
  by (simp add: teardown_social_agents_def teardown_agents_by_ids_def Let_def log_debug_def
      manager_ab_def remote_broken_def)

text \<open>
  C6, amended: if \<open>terminate\<close> raises for a selected social agent (and every selected
  agent has a remote agent and a data model), the exception reaches the caller of
  \<open>teardown_social_agents\<close>, so the failure is surfaced. By then the interface entry of
  every selected agent is removed, but that agent's remote handle entry and its data model
  are still there and the social id set is unchanged. The last \<open>terminate\<close> called is one
  that raised.
\<close>

theorem teardown_social_agents_terminate_raises:
  assumes "distinct (social_agent_ids s)"
    and "ids' = (case filter_ids of None \<Rightarrow> social_agent_ids s
                 | Some f \<Rightarrow> set_inter (social_agent_ids s) f)"
    and "\<forall>b\<in>set ids'. map_of (remote_social_agents s) b \<noteq> None \<and> agent_data_models s b \<noteq> None"
    and "a \<in> set ids'"
    and "map_of (remote_social_agents s) a = Some h"
    and "terminate_raises env h"
  shows "\<exists>s'. teardown_social_agents env s filter_ids = (Inl TerminateError, s')
     \<and> map_of (remote_social_agents s') a = Some h
     \<and> agent_data_models s' a = agent_data_models s a
     \<and> social_agent_ids s' = social_agent_ids s
     \<and> agent_interfaces s' a = None
     \<and> (\<forall>b\<in>set ids'. agent_interfaces s' b = None)
     \<and> terminate_calls (trace s') \<noteq> []
     \<and> terminate_raises env (last (terminate_calls (trace s')))"
proof -
  let ?p = "teardown_agents_by_ids s (social_agent_ids s) filter_ids"
  have ids: "fst ?p = ids'"
    by (simp add: teardown_agents_by_ids_fields assms(2))
  define s1 where "s1 = snd ?p"
  have s1: "remote_social_agents s1 = remote_social_agents s"
    "agent_data_models s1 = agent_data_models s"
    "social_agent_ids s1 = social_agent_ids s"
    "\<And>a. agent_interfaces s1 a = (if a \<in> set ids' then None else agent_interfaces s a)"
    unfolding s1_def by (simp_all add: teardown_agents_by_ids_fields assms(2) [symmetric])
  have d: "distinct ids'"
    using assms(1) by (simp add: assms(2) set_inter_def split: option.splits)
  define r where "r = terminate_loop env ids' s1"
  have p2: "\<forall>b\<in>set ids'. map_of (remote_social_agents s1) b \<noteq> None
      \<and> agent_data_models s1 b \<noteq> None"
    using assms(3) by (simp add: s1)
  have p4: "map_of (remote_social_agents s1) a = Some h"
    using assms(5) by (simp add: s1)
  note bad = terminate_loop_raises [OF d p2 assms(4) p4 assms(6), folded r_def]
  from bad have r1: "fst r = Some TerminateError" by (rule conjunct1)
  have res: "teardown_social_agents env s filter_ids = (Inl TerminateError, snd r)"
    using teardown_social_agents_raises [of env s filter_ids TerminateError] r1
    unfolding ids s1_def [symmetric] r_def [symmetric] by simp
  from bad have 1: "map_of (remote_social_agents (snd r)) a = Some h" by blast
  from bad have 2: "agent_data_models (snd r) a = agent_data_models s a"
    unfolding s1 by blast
  from bad have 3: "social_agent_ids (snd r) = social_agent_ids s"
    unfolding s1 by blast
  from bad have popped: "agent_interfaces (snd r) = agent_interfaces s1" by blast
  then have 4: "agent_interfaces (snd r) a = None"
    using assms(4) by (simp add: s1)
  from popped have all: "\<forall>b\<in>set ids'. agent_interfaces (snd r) b = None"
    by (simp add: s1)
  from bad have 5: "terminate_calls (trace (snd r)) \<noteq> []" by blast
  from bad have 6: "terminate_raises env (last (terminate_calls (trace (snd r))))" by blast
  from res 1 2 3 4 all 5 6 show ?thesis
    by (intro exI [of _ "snd r"] conjI)
qed

theorem teardown_social_agents_terminate_raises_witness:
  "distinct (social_agent_ids manager_ab)
   \<and> social_agent_ids manager_ab = [''a'', ''b'']
   \<and> map_of (remote_social_agents manager_ab) ''a'' = Some 1
   \<and> agent_data_models manager_ab ''a'' = Some ''model-a''
   \<and> agent_data_models manager_ab ''b'' = Some ''model-b''
   \<and> map_of (remote_social_agents manager_ab) ''b'' = Some 2
   \<and> terminate_raises remote_broken 2
   \<and> (\<exists>s'. teardown_social_agents remote_broken manager_ab None = (Inl TerminateError, s')
          \<and> map_of (remote_social_agents s') ''b'' = Some 2
          \<and> agent_data_models s' ''b'' = Some ''model-b''
          \<and> social_agent_ids s' = [''a'', ''b'']
          \<and> agent_interfaces s' ''b'' = None
          \<and> agent_interfaces s' ''a'' = None)"
proof -
  have h1: "distinct (social_agent_ids manager_ab)"
    by (simp add: manager_ab_def)
  have h2: "[''a'', ''b''] = (case None of None \<Rightarrow> social_agent_ids manager_ab
                 | Some f \<Rightarrow> set_inter (social_agent_ids manager_ab) f)"
    by (simp add: manager_ab_def)
  have h3: "\<forall>b\<in>set [''a'', ''b'']. map_of (remote_social_agents manager_ab) b \<noteq> None
          \<and> agent_data_models manager_ab b \<noteq> None"
    by (simp add: manager_ab_def)
  have h4: "''b'' \<in> set [''a'', ''b'']" by simp
  have h5: "map_of (remote_social_agents manager_ab) ''b'' = Some 2"
    by (simp add: manager_ab_def)
  have h6: "terminate_raises remote_broken 2"
    by (simp add: remote_broken_def)
  from teardown_social_agents_terminate_raises [OF h1 h2 h3 h4 h5 h6]
  obtain s' where r: "teardown_social_agents remote_broken manager_ab None
        = (Inl TerminateError, s')"
    and 1: "map_of (remote_social_agents s') ''b'' = Some 2"
    and 2: "agent_data_models s' ''b'' = agent_data_models manager_ab ''b''"
    and 3: "social_agent_ids s' = social_agent_ids manager_ab"
    and 4: "agent_interfaces s' ''b'' = None"
    and 5: "\<forall>b\<in>set [''a'', ''b'']. agent_interfaces s' b = None"
    by blast
  from 5 have m5: "agent_interfaces s' ''a'' = None" by simp
  from 2 have m2: "agent_data_models s' ''b'' = Some ''model-b''"
    by (simp add: manager_ab_def)
  from 3 have m3: "social_agent_ids s' = [''a'', ''b'']"
    by (simp add: manager_ab_def)
  from r 1 m2 m3 4 m5
  have "\<exists>s'. teardown_social_agents remote_broken manager_ab None = (Inl TerminateError, s')
          \<and> map_of (remote_social_agents s') ''b'' = Some 2
          \<and> agent_data_models s' ''b'' = Some ''model-b''
          \<and> social_agent_ids s' = [''a'', ''b'']
          \<and> agent_interfaces s' ''b'' = None
          \<and> agent_interfaces s' ''a'' = None"
    by (intro exI [of _ s'] conjI)
  moreover have "social_agent_ids manager_ab = [''a'', ''b'']"
    "map_of (remote_social_agents manager_ab) ''a'' = Some 1"
    "agent_data_models manager_ab ''a'' = Some ''model-a''"
    "agent_data_models manager_ab ''b'' = Some ''model-b''"
    by (simp_all add: manager_ab_def)
  ultimately show ?thesis using h1 h5 h6 by (intro conjI)
qed

section \<open>Fetching and filtering the actions of social agents\<close>

subsection \<open>The loop over the controlling agents\<close>

lemma filter_loop_returns:
  "\<forall>(a, act)\<in>set xs. \<exists>i. agent_interfaces s a = Some i
       \<and> (action_space i = MultiTargetPose \<longrightarrow> (\<exists>items. act = VehicleActions items))
     \<Longrightarrow> \<exists>r. filter_loop sim s xs d = Inr r"
proof (induction xs arbitrary: d)
  case Nil
  show ?case by simp
next
  case (Cons p xs)
  obtain a act where p: "p = (a, act)" by (cases p)
  from Cons.prems obtain i where i: "agent_interfaces s a = Some i"
    and m: "action_space i = MultiTargetPose \<longrightarrow> (\<exists>items. act = VehicleActions items)"
    by (auto simp: p)
  from Cons.prems have rest: "\<forall>(a, act)\<in>set xs. \<exists>i. agent_interfaces s a = Some i
       \<and> (action_space i = MultiTargetPose \<longrightarrow> (\<exists>items. act = VehicleActions items))"
    by simp
  show ?case
  proof (cases "action_space i = MultiTargetPose")
    case True
    with m obtain items where "act = VehicleActions items" by blast
    then show ?thesis using Cons.IH [OF rest] i True by (simp add: p)
  next
    case False
    then show ?thesis using Cons.IH [OF rest] i by (simp add: p)
  qed
qed

lemma filter_loop_other:
  "a \<notin> fst ` set xs \<Longrightarrow> filter_loop sim s xs d = Inr r \<Longrightarrow> map_of r a = map_of d a"
proof (induction xs arbitrary: d)
  case Nil
  then show ?case by simp
next
  case (Cons p xs)
  obtain b act where p: "p = (b, act)" by (cases p)
  from Cons.prems(1) have ab: "a \<noteq> b" and ax: "a \<notin> fst ` set xs" by (auto simp: p)
  from Cons.prems(2) obtain d' where r: "filter_loop sim s xs d' = Inr r"
    and d': "map_of d' a = map_of d a"
    using ab by (auto simp: p update_conv' split: option.splits if_splits action.splits)
  from Cons.IH [OF ax r] d' show ?case by simp
qed

lemma filter_loop_single:
  "agent_interfaces s a = Some i \<Longrightarrow> action_space i \<noteq> MultiTargetPose \<Longrightarrow>
     filter_loop sim s xs d = Inr r \<Longrightarrow> map_of r a = map_of d a"
proof (induction xs arbitrary: d)
  case Nil
  then show ?case by simp
next
  case (Cons p xs)
  obtain b act where p: "p = (b, act)" by (cases p)
  have "\<exists>d'. filter_loop sim s xs d' = Inr r \<and> map_of d' a = map_of d a"
  proof (cases "b = a")
    case True
    with Cons.prems show ?thesis by (auto simp: p)
  next
    case False
    with Cons.prems(3) show ?thesis
      by (auto simp: p update_conv' split: option.splits if_splits action.splits)
  qed
  then obtain d' where r: "filter_loop sim s xs d' = Inr r"
    and d': "map_of d' a = map_of d a" by blast
  from Cons.IH [OF Cons.prems(1,2) r] d' show ?case by simp
qed

lemma filter_loop_multi:
  "distinct (map fst xs) \<Longrightarrow> (a, VehicleActions items) \<in> set xs \<Longrightarrow>
   agent_interfaces s a = Some i \<Longrightarrow> action_space i = MultiTargetPose \<Longrightarrow>
   filter_loop sim s xs d = Inr r \<Longrightarrow>
     map_of r a = Some (VehicleActions (filter (\<lambda>(vehicle_id, vehicle_action).
         vehicle_id \<in> set (vehicle_ids_by_actor_id sim a False)) items))"
proof (induction xs arbitrary: d)
  case Nil
  then show ?case by simp
next
  case (Cons p xs)
  obtain b act where p: "p = (b, act)" by (cases p)
  from Cons.prems(1) have bx: "b \<notin> fst ` set xs" and dx: "distinct (map fst xs)"
    by (simp_all add: p)
  show ?case
  proof (cases "b = a")
    case True
    with Cons.prems(2) bx have act: "act = VehicleActions items"
      by (auto simp: p image_iff)
    let ?d = "AList.update a (VehicleActions (filter (\<lambda>(vehicle_id, vehicle_action).
         vehicle_id \<in> set (vehicle_ids_by_actor_id sim a False)) items)) d"
    from Cons.prems(3,4,5) have r: "filter_loop sim s xs ?d = Inr r"
      by (simp add: p True act)
    from bx True have "a \<notin> fst ` set xs" by simp
    from filter_loop_other [OF this r] show ?thesis by (simp add: update_conv')
  next
    case False
    with Cons.prems(2) have mem: "(a, VehicleActions items) \<in> set xs" by (auto simp: p)
    from Cons.prems(5) obtain d' where r: "filter_loop sim s xs d' = Inr r"
      by (auto simp: p split: option.splits if_splits action.splits)
    from Cons.IH [OF dx mem Cons.prems(3,4) r] show ?thesis .
  qed
qed

lemma filter_loop_trace [simp]:
  "filter_loop sim (log_debug msg s) xs d = filter_loop sim s xs d"
  by (induction xs arbitrary: d) (auto simp: log_debug_def split: option.splits action.splits)

lemma map_of_filter_keys:
  "map_of (filter (\<lambda>(k, v). P k) xs) a = (if P a then map_of xs a else None)"
  by (induction xs) auto

lemma distinct_filter_keys:
  "distinct (map fst xs) \<Longrightarrow> distinct (map fst (filter P xs))"
  by (induction xs) auto

lemma map_of_recv:
  "map_of (map (\<lambda>(agent_id, remote_agent). (agent_id, f remote_agent)) xs) a
     = map_option f (map_of xs a)"
  by (induction xs) auto

lemma map_fst_recv [simp]:
  "map fst (map (\<lambda>(agent_id, remote_agent). (agent_id, f remote_agent)) xs) = map fst xs"
  by (induction xs) auto

subsection \<open>\<open>_filter_social_agent_actions_for_controlled_vehicles\<close>\<close>

lemma filter_social_trace [simp]:
  "filter_social_agent_actions_for_controlled_vehicles sim (log_debug msg s) xs
     = filter_social_agent_actions_for_controlled_vehicles sim s xs"
  by (simp add: filter_social_agent_actions_for_controlled_vehicles_def)

lemma filter_social_spec:
  assumes dist: "distinct (map fst saa)"
    and wf: "\<forall>(b, act)\<in>set saa. b \<in> set (controlling_agent_ids sim) \<longrightarrow>
       (\<exists>i. agent_interfaces s b = Some i
          \<and> (action_space i = MultiTargetPose \<longrightarrow> (\<exists>items. act = VehicleActions items)))"
  shows "\<exists>r. filter_social_agent_actions_for_controlled_vehicles sim s saa = Inr r
     \<and> (\<forall>a. a \<notin> set (controlling_agent_ids sim) \<longrightarrow> map_of r a = None)
     \<and> (\<forall>a. map_of saa a = None \<longrightarrow> map_of r a = None)
     \<and> (\<forall>a i. a \<in> set (controlling_agent_ids sim) \<and> agent_interfaces s a = Some i
            \<and> action_space i \<noteq> MultiTargetPose \<longrightarrow> map_of r a = map_of saa a)
     \<and> (\<forall>a i items. a \<in> set (controlling_agent_ids sim) \<and> agent_interfaces s a = Some i
            \<and> action_space i = MultiTargetPose \<and> map_of saa a = Some (VehicleActions items) \<longrightarrow>
          map_of r a = Some (VehicleActions (filter (\<lambda>(vehicle_id, vehicle_action).
             vehicle_id \<in> set (vehicle_ids_by_actor_id sim a False)) items)))"
proof -
  let ?xs = "filter (\<lambda>(agent_id, action). agent_id \<in> set (controlling_agent_ids sim)) saa"
  have def: "filter_social_agent_actions_for_controlled_vehicles sim s saa
      = filter_loop sim s ?xs ?xs"
    by (simp add: filter_social_agent_actions_for_controlled_vehicles_def Let_def)
  have wf': "\<forall>(a, act)\<in>set ?xs. \<exists>i. agent_interfaces s a = Some i
       \<and> (action_space i = MultiTargetPose \<longrightarrow> (\<exists>items. act = VehicleActions items))"
    using wf by auto
  from filter_loop_returns [OF wf', of sim ?xs]
  obtain r where r: "filter_loop sim s ?xs ?xs = Inr r" by blast
  have m: "map_of ?xs a = (if a \<in> set (controlling_agent_ids sim) then map_of saa a else None)"
    for a by (rule map_of_filter_keys)
  have d: "distinct (map fst ?xs)"
    using dist by (rule distinct_filter_keys)
  have 1: "\<forall>a. a \<notin> set (controlling_agent_ids sim) \<longrightarrow> map_of r a = None"
  proof (intro allI impI)
    fix a assume a: "a \<notin> set (controlling_agent_ids sim)"
    then have "a \<notin> fst ` set ?xs" by auto
    from filter_loop_other [OF this r] a show "map_of r a = None" by (simp add: m)
  qed
  have 2: "\<forall>a. map_of saa a = None \<longrightarrow> map_of r a = None"
  proof (intro allI impI)
    fix a assume a: "map_of saa a = None"
    then have "a \<notin> fst ` set saa" by (simp add: map_of_eq_None_iff)
    then have "a \<notin> fst ` set ?xs" by auto
    from filter_loop_other [OF this r] a show "map_of r a = None" by (simp add: m)
  qed
  have 3: "\<forall>a i. a \<in> set (controlling_agent_ids sim) \<and> agent_interfaces s a = Some i
            \<and> action_space i \<noteq> MultiTargetPose \<longrightarrow> map_of r a = map_of saa a"
  proof (intro allI impI, elim conjE)
    fix a i assume a: "a \<in> set (controlling_agent_ids sim)"
      and i: "agent_interfaces s a = Some i" "action_space i \<noteq> MultiTargetPose"
    from filter_loop_single [OF i r] a show "map_of r a = map_of saa a" by (simp add: m)
  qed
  have 4: "\<forall>a i items. a \<in> set (controlling_agent_ids sim) \<and> agent_interfaces s a = Some i
            \<and> action_space i = MultiTargetPose \<and> map_of saa a = Some (VehicleActions items) \<longrightarrow>
          map_of r a = Some (VehicleActions (filter (\<lambda>(vehicle_id, vehicle_action).
             vehicle_id \<in> set (vehicle_ids_by_actor_id sim a False)) items))"
  proof (intro allI impI, elim conjE)
    fix a i items assume a: "a \<in> set (controlling_agent_ids sim)"
      and i: "agent_interfaces s a = Some i" "action_space i = MultiTargetPose"
      and v: "map_of saa a = Some (VehicleActions items)"
    from v have "(a, VehicleActions items) \<in> set saa" by (rule map_of_SomeD)
    with a have mem: "(a, VehicleActions items) \<in> set ?xs" by simp
    from filter_loop_multi [OF d mem i r]
    show "map_of r a = Some (VehicleActions (filter (\<lambda>(vehicle_id, vehicle_action).
             vehicle_id \<in> set (vehicle_ids_by_actor_id sim a False)) items))" .
  qed
  from def r 1 2 3 4 show ?thesis by (intro exI [of _ r] conjI) simp_all
qed

text \<open>
  C5: filtering keeps only what an agent may actuate. An agent that controls no vehicle
  loses its entry; a single-vehicle agent that controls its vehicle keeps its action; for
  a multi-vehicle agent that controls some vehicle, the bundle it sent is restricted to
  the vehicles it controls (\<open>vehicle_ids_by_actor_id\<close> without shadowers). So with \<open>X\<close>
  controlled and \<open>Y\<close> only shadowed, the bundle \<open>{X: a1, Y: a2}\<close> becomes \<open>{X: a1}\<close>.
  The hypotheses say that the collected actions are a dict, that every controlling agent
  has an interface, and that a controlling multi-vehicle agent sent a dict.
\<close>

theorem filter_keeps_controlled_vehicles:
  assumes "distinct (map fst social_agent_actions)"
    and "\<forall>(b, act)\<in>set social_agent_actions. b \<in> set (controlling_agent_ids sim) \<longrightarrow>
       (\<exists>i. agent_interfaces s b = Some i
          \<and> (action_space i = MultiTargetPose \<longrightarrow> (\<exists>items. act = VehicleActions items)))"
    and "a \<in> set (controlling_agent_ids sim)"
    and "agent_interfaces s a = Some i"
    and "action_space i = MultiTargetPose"
    and "map_of social_agent_actions a = Some (VehicleActions bundle)"
  shows "\<exists>r. filter_social_agent_actions_for_controlled_vehicles sim s social_agent_actions = Inr r
     \<and> map_of r a = Some (VehicleActions (filter (\<lambda>(vehicle_id, vehicle_action).
           vehicle_id \<in> set (vehicle_ids_by_actor_id sim a False)) bundle))
     \<and> (\<forall>X Y a1 a2. bundle = [(X, a1), (Y, a2)]
            \<and> X \<in> set (vehicle_ids_by_actor_id sim a False)
            \<and> Y \<notin> set (vehicle_ids_by_actor_id sim a False) \<longrightarrow>
          map_of r a = Some (VehicleActions [(X, a1)]))
     \<and> (\<forall>b. b \<notin> set (controlling_agent_ids sim) \<longrightarrow> map_of r b = None)
     \<and> (\<forall>b j. b \<in> set (controlling_agent_ids sim) \<and> agent_interfaces s b = Some j
            \<and> action_space j \<noteq> MultiTargetPose \<longrightarrow> map_of r b = map_of social_agent_actions b)"
proof -
  from filter_social_spec [OF assms(1,2)]
  obtain r where r: "filter_social_agent_actions_for_controlled_vehicles sim s social_agent_actions
      = Inr r"
    and 1: "\<forall>a. a \<notin> set (controlling_agent_ids sim) \<longrightarrow> map_of r a = None"
    and 3: "\<forall>a i. a \<in> set (controlling_agent_ids sim) \<and> agent_interfaces s a = Some i
            \<and> action_space i \<noteq> MultiTargetPose \<longrightarrow> map_of r a = map_of social_agent_actions a"
    and 4: "\<forall>a i items. a \<in> set (controlling_agent_ids sim) \<and> agent_interfaces s a = Some i
            \<and> action_space i = MultiTargetPose
            \<and> map_of social_agent_actions a = Some (VehicleActions items) \<longrightarrow>
          map_of r a = Some (VehicleActions (filter (\<lambda>(vehicle_id, vehicle_action).
             vehicle_id \<in> set (vehicle_ids_by_actor_id sim a False)) items))"
    by blast
  from 4 assms(3-6) have m: "map_of r a = Some (VehicleActions (filter (\<lambda>(vehicle_id, vehicle_action).
           vehicle_id \<in> set (vehicle_ids_by_actor_id sim a False)) bundle))"
    by blast
  have ex: "\<forall>X Y a1 a2. bundle = [(X, a1), (Y, a2)]
            \<and> X \<in> set (vehicle_ids_by_actor_id sim a False)
            \<and> Y \<notin> set (vehicle_ids_by_actor_id sim a False) \<longrightarrow>
          map_of r a = Some (VehicleActions [(X, a1)])"
    using m by simp
  from r m ex 1 3 show ?thesis by (intro exI [of _ r] conjI)
qed

theorem filter_keeps_controlled_vehicles_witness:
  "distinct (map fst [(''b'', VehicleActions [(''X'', 1::nat), (''Y'', 2)])])
   \<and> ''b'' \<in> set (controlling_agent_ids sim_xy)
   \<and> agent_interfaces manager_ab ''b'' = Some \<lparr>action_space = MultiTargetPose\<rparr>
   \<and> ''X'' \<in> set (vehicle_ids_by_actor_id sim_xy ''b'' False)
   \<and> ''Y'' \<notin> set (vehicle_ids_by_actor_id sim_xy ''b'' False)
   \<and> (\<exists>r. filter_social_agent_actions_for_controlled_vehicles sim_xy manager_ab
            [(''b'', VehicleActions [(''X'', 1::nat), (''Y'', 2)])] = Inr r
         \<and> map_of r ''b'' = Some (VehicleActions [(''X'', 1)])
         \<and> map_of r ''a'' = None)"
proof -
  let ?saa = "[(''b'', VehicleActions [(''X'', 1::nat), (''Y'', 2)])]"
  have h1: "distinct (map fst ?saa)" by simp
  have h2: "\<forall>(b, act)\<in>set ?saa. b \<in> set (controlling_agent_ids sim_xy) \<longrightarrow>
       (\<exists>i. agent_interfaces manager_ab b = Some i
          \<and> (action_space i = MultiTargetPose \<longrightarrow> (\<exists>items. act = VehicleActions items)))"
    by (simp add: manager_ab_def)
  have h3: "''b'' \<in> set (controlling_agent_ids sim_xy)"
    by (simp add: controlling_agent_ids_def sim_xy_def sim0_def)
  have h4: "agent_interfaces manager_ab ''b'' = Some \<lparr>action_space = MultiTargetPose\<rparr>"
    by (simp add: manager_ab_def)
  have h5: "action_space \<lparr>action_space = MultiTargetPose\<rparr> = MultiTargetPose" by simp
  have h6: "map_of ?saa ''b'' = Some (VehicleActions [(''X'', 1), (''Y'', 2)])" by simp
  have x: "''X'' \<in> set (vehicle_ids_by_actor_id sim_xy ''b'' False)"
    by (simp add: sim_xy_def sim0_def)
  have y: "''Y'' \<notin> set (vehicle_ids_by_actor_id sim_xy ''b'' False)"
    by (simp add: sim_xy_def sim0_def)
  have na: "''a'' \<notin> set (controlling_agent_ids sim_xy)"
    by (simp add: controlling_agent_ids_def sim_xy_def sim0_def)
  from filter_keeps_controlled_vehicles [OF h1 h2 h3 h4 h5 h6]
  obtain r where r: "filter_social_agent_actions_for_controlled_vehicles sim_xy manager_ab ?saa
      = Inr r"
    and e: "\<forall>X Y a1 a2. [(''X'', 1::nat), (''Y'', 2)] = [(X, a1), (Y, a2)]
            \<and> X \<in> set (vehicle_ids_by_actor_id sim_xy ''b'' False)
            \<and> Y \<notin> set (vehicle_ids_by_actor_id sim_xy ''b'' False) \<longrightarrow>
          map_of r ''b'' = Some (VehicleActions [(X, a1)])"
    and n: "\<forall>b. b \<notin> set (controlling_agent_ids sim_xy) \<longrightarrow> map_of r b = None"
    by blast
  from e x y have b: "map_of r ''b'' = Some (VehicleActions [(''X'', 1)])" by blast
  from n na have a: "map_of r ''a'' = None" by blast
  from r b a have "\<exists>r. filter_social_agent_actions_for_controlled_vehicles sim_xy manager_ab ?saa
        = Inr r
         \<and> map_of r ''b'' = Some (VehicleActions [(''X'', 1)])
         \<and> map_of r ''a'' = None"
    by (intro exI [of _ r] conjI)
  with h1 h3 h4 x y show ?thesis by (intro conjI)
qed

subsection \<open>\<open>fetch_agent_actions\<close>\<close>

lemma fetch_agent_actions_result:
  "filter_social_agent_actions_for_controlled_vehicles sim s
      (map (\<lambda>(agent_id, remote_agent). (agent_id, recv_action env remote_agent 5))
         (remote_social_agents s)) = Inr r \<Longrightarrow>
   fst (fetch_agent_actions sim env s ego_agent_actions) = Inr (ego_agent_actions ++ map_of r)"
  by (simp add: fetch_agent_actions_def Let_def)

lemma fetch_agent_actions_trace:
  "trace (snd (fetch_agent_actions sim env s ego_agent_actions)) =
     trace s @
     (if map fst (filter (\<lambda>(agent_id, action). action = PyNone)
           (map (\<lambda>(agent_id, remote_agent). (agent_id, recv_action env remote_agent 5))
              (remote_social_agents s))) \<noteq> []
      then [LogDebug (ReturnedNoAction (map fst (filter (\<lambda>(agent_id, action). action = PyNone)
           (map (\<lambda>(agent_id, remote_agent). (agent_id, recv_action env remote_agent 5))
              (remote_social_agents s)))))]
      else [])"
  by (simp add: fetch_agent_actions_def Let_def log_debug_def split: sum.splits)

lemma collected_actions_wf:
  assumes "\<forall>(b, hb)\<in>set remote. b \<in> C \<longrightarrow>
       (\<exists>i. agent_interfaces s b = Some i
          \<and> (action_space i = MultiTargetPose \<longrightarrow> (\<exists>items. f hb = VehicleActions items)))"
  shows "\<forall>(b, act)\<in>set (map (\<lambda>(agent_id, remote_agent). (agent_id, f remote_agent)) remote).
       b \<in> C \<longrightarrow> (\<exists>i. agent_interfaces s b = Some i
          \<and> (action_space i = MultiTargetPose \<longrightarrow> (\<exists>items. act = VehicleActions items)))"
  using assms by auto

lemma collected_actions_lookup:
  "distinct (map fst remote) \<Longrightarrow> (b, hb) \<in> set remote \<Longrightarrow>
     map_of (map (\<lambda>(agent_id, remote_agent). (agent_id, f remote_agent)) remote) b = Some (f hb)"
  by (simp add: map_of_recv)

text \<open>
  C1, as stated: a social agent that returns no action contributes no entry to the merged
  map, even if it controls a vehicle. The code only logs the agents without an action: it
  never removes them. Below agent \<open>a\<close> (single-vehicle, controls \<open>v1\<close>) answers \<open>None\<close>
  and the merged map has the entry \<open>a: None\<close>.
\<close>

theorem fetch_agent_actions_keeps_none_entry:
  "recv_action remote_broken 1 5 = (PyNone :: nat action)
   \<and> map_of (remote_social_agents manager_ab) ''a'' = Some 1
   \<and> ''a'' \<in> set (controlling_agent_ids sim_a)
   \<and> fst (fetch_agent_actions sim_a remote_broken manager_ab Map.empty)
       = Inr [''a'' \<mapsto> PyNone]"
  by (simp add: fetch_agent_actions_def filter_social_agent_actions_for_controlled_vehicles_def
      controlling_agent_ids_def Let_def log_debug_def manager_ab_def remote_broken_def
      sim_a_def sim0_def)

text \<open>
  C1, amended: let a social agent return no action within the timeout, and let every
  controlling agent have an interface and every controlling multi-vehicle agent answer
  with a dict. Then \<open>fetch_agent_actions\<close> returns (the failure is not fatal) and logs the
  agents without an action, this agent among them. If the agent controls no vehicle, it
  contributes no entry: the merged map has at its id what the ego actions have. If it
  controls a vehicle, the merged map has its id with the value \<open>None\<close>. The entries of
  the other agents are returned: the answer of a controlling single-vehicle agent, the
  restricted bundle of a controlling multi-vehicle agent, and the ego action for every id
  that is no social agent.
\<close>

theorem fetch_agent_actions_no_action:
  assumes "distinct (map fst (remote_social_agents s))"
    and "\<forall>(b, hb)\<in>set (remote_social_agents s). b \<in> set (controlling_agent_ids sim) \<longrightarrow>
       (\<exists>i. agent_interfaces s b = Some i
          \<and> (action_space i = MultiTargetPose \<longrightarrow>
                (\<exists>items. recv_action env hb 5 = VehicleActions items)))"
    and "(a, h) \<in> set (remote_social_agents s)"
    and "recv_action env h 5 = PyNone"
  shows "\<exists>m. fst (fetch_agent_actions sim env s ego_agent_actions) = Inr m
     \<and> (a \<notin> set (controlling_agent_ids sim) \<longrightarrow> m a = ego_agent_actions a)
     \<and> (a \<in> set (controlling_agent_ids sim) \<longrightarrow> m a = Some PyNone)
     \<and> (\<exists>ids. a \<in> set ids
           \<and> trace (snd (fetch_agent_actions sim env s ego_agent_actions))
               = trace s @ [LogDebug (ReturnedNoAction ids)])
     \<and> (\<forall>b hb j. (b, hb) \<in> set (remote_social_agents s)
            \<and> b \<in> set (controlling_agent_ids sim) \<and> agent_interfaces s b = Some j
            \<and> action_space j \<noteq> MultiTargetPose \<longrightarrow> m b = Some (recv_action env hb 5))
     \<and> (\<forall>b hb j items. (b, hb) \<in> set (remote_social_agents s)
            \<and> b \<in> set (controlling_agent_ids sim) \<and> agent_interfaces s b = Some j
            \<and> action_space j = MultiTargetPose \<and> recv_action env hb 5 = VehicleActions items \<longrightarrow>
          m b = Some (VehicleActions (filter (\<lambda>(vehicle_id, vehicle_action).
             vehicle_id \<in> set (vehicle_ids_by_actor_id sim b False)) items)))
     \<and> (\<forall>b. b \<notin> fst ` set (remote_social_agents s) \<longrightarrow> m b = ego_agent_actions b)"
proof -
  let ?f = "\<lambda>remote_agent. recv_action env remote_agent 5"
  let ?saa = "map (\<lambda>(agent_id, remote_agent). (agent_id, ?f remote_agent))
      (remote_social_agents s)"
  let ?C = "set (controlling_agent_ids sim)"
  have dist: "distinct (map fst ?saa)" using assms(1) by (simp only: map_fst_recv)
  have wf: "\<forall>(b, act)\<in>set ?saa. b \<in> ?C \<longrightarrow> (\<exists>i. agent_interfaces s b = Some i
          \<and> (action_space i = MultiTargetPose \<longrightarrow> (\<exists>items. act = VehicleActions items)))"
    using assms(2) by (rule collected_actions_wf)
  have look: "map_of ?saa b = Some (?f hb)" if "(b, hb) \<in> set (remote_social_agents s)" for b hb
    using assms(1) that by (rule collected_actions_lookup)
  from filter_social_spec [OF dist wf]
  obtain r where r: "filter_social_agent_actions_for_controlled_vehicles sim s ?saa = Inr r"
    and 1: "\<forall>a. a \<notin> ?C \<longrightarrow> map_of r a = None"
    and 2: "\<forall>a. map_of ?saa a = None \<longrightarrow> map_of r a = None"
    and 3: "\<forall>a i. a \<in> ?C \<and> agent_interfaces s a = Some i
            \<and> action_space i \<noteq> MultiTargetPose \<longrightarrow> map_of r a = map_of ?saa a"
    and 4: "\<forall>a i items. a \<in> ?C \<and> agent_interfaces s a = Some i
            \<and> action_space i = MultiTargetPose \<and> map_of ?saa a = Some (VehicleActions items) \<longrightarrow>
          map_of r a = Some (VehicleActions (filter (\<lambda>(vehicle_id, vehicle_action).
             vehicle_id \<in> set (vehicle_ids_by_actor_id sim a False)) items))"
    by blast
  let ?m = "ego_agent_actions ++ map_of r"
  have res: "fst (fetch_agent_actions sim env s ego_agent_actions) = Inr ?m"
    using r by (rule fetch_agent_actions_result)
  have c1: "a \<notin> ?C \<longrightarrow> ?m a = ego_agent_actions a"
    using 1 by (simp add: map_add_def)
  have c2: "a \<in> ?C \<longrightarrow> ?m a = Some PyNone"
  proof
    assume a: "a \<in> ?C"
    with assms(2,3) obtain i where i: "agent_interfaces s a = Some i"
      and mt: "action_space i = MultiTargetPose \<longrightarrow>
                (\<exists>items. recv_action env h 5 = VehicleActions items)"
      by blast
    from mt assms(4) have "action_space i \<noteq> MultiTargetPose" by auto
    with 3 a i have "map_of r a = map_of ?saa a" by blast
    also have "\<dots> = Some PyNone" using look [OF assms(3)] assms(4) by simp
    finally show "?m a = Some PyNone" by (simp add: map_add_def)
  qed
  let ?ids = "map fst (filter (\<lambda>(agent_id, action). action = PyNone) ?saa)"
  have mem: "a \<in> set ?ids"
    using assms(3,4) by (force simp: image_iff)
  have "?ids \<noteq> []"
  proof
    assume e: "?ids = []"
    from mem show False unfolding e by simp
  qed
  then have "trace (snd (fetch_agent_actions sim env s ego_agent_actions))
               = trace s @ [LogDebug (ReturnedNoAction ?ids)]"
    by (simp only: fetch_agent_actions_trace if_True not_False_eq_True)
  with mem have c3: "\<exists>ids. a \<in> set ids
           \<and> trace (snd (fetch_agent_actions sim env s ego_agent_actions))
               = trace s @ [LogDebug (ReturnedNoAction ids)]"
    by blast
  have c4: "\<forall>b hb j. (b, hb) \<in> set (remote_social_agents s)
            \<and> b \<in> ?C \<and> agent_interfaces s b = Some j
            \<and> action_space j \<noteq> MultiTargetPose \<longrightarrow> ?m b = Some (recv_action env hb 5)"
  proof (intro allI impI, elim conjE)
    fix b hb j assume b: "(b, hb) \<in> set (remote_social_agents s)" "b \<in> ?C"
      "agent_interfaces s b = Some j" "action_space j \<noteq> MultiTargetPose"
    with 3 have "map_of r b = map_of ?saa b" by blast
    with look [OF b(1)] show "?m b = Some (recv_action env hb 5)" by (simp add: map_add_def)
  qed
  have c5: "\<forall>b hb j items. (b, hb) \<in> set (remote_social_agents s)
            \<and> b \<in> ?C \<and> agent_interfaces s b = Some j
            \<and> action_space j = MultiTargetPose \<and> recv_action env hb 5 = VehicleActions items \<longrightarrow>
          ?m b = Some (VehicleActions (filter (\<lambda>(vehicle_id, vehicle_action).
             vehicle_id \<in> set (vehicle_ids_by_actor_id sim b False)) items))"
  proof (intro allI impI, elim conjE)
    fix b hb j items assume b: "(b, hb) \<in> set (remote_social_agents s)" "b \<in> ?C"
      "agent_interfaces s b = Some j" "action_space j = MultiTargetPose"
      "recv_action env hb 5 = VehicleActions items"
    from look [OF b(1)] b(5) have "map_of ?saa b = Some (VehicleActions items)" by simp
    with 4 b(2,3,4) have "map_of r b = Some (VehicleActions (filter (\<lambda>(vehicle_id, vehicle_action).
             vehicle_id \<in> set (vehicle_ids_by_actor_id sim b False)) items))"
      by blast
    then show "?m b = Some (VehicleActions (filter (\<lambda>(vehicle_id, vehicle_action).
             vehicle_id \<in> set (vehicle_ids_by_actor_id sim b False)) items))"
      by (simp add: map_add_def)
  qed
  have c6: "\<forall>b. b \<notin> fst ` set (remote_social_agents s) \<longrightarrow> ?m b = ego_agent_actions b"
  proof (intro allI impI)
    fix b assume "b \<notin> fst ` set (remote_social_agents s)"
    then have "map_of ?saa b = None" by (simp add: map_of_recv map_of_eq_None_iff)
    with 2 have "map_of r b = None" by blast
    then show "?m b = ego_agent_actions b" by (simp add: map_add_def)
  qed
  from res c1 c2 c3 c4 c5 c6 show ?thesis by (intro exI [of _ ?m] conjI)
qed

theorem fetch_agent_actions_no_action_witness:
  "distinct (map fst (remote_social_agents manager_ab))
   \<and> (''a'', 1) \<in> set (remote_social_agents manager_ab)
   \<and> (''b'', 2) \<in> set (remote_social_agents manager_ab)
   \<and> recv_action remote_broken 1 5 = (PyNone :: nat action)
   \<and> recv_action remote_broken 2 5 = (PyNone :: nat action)
   \<and> ''a'' \<in> set (controlling_agent_ids sim_a)
   \<and> ''b'' \<notin> set (controlling_agent_ids sim_a)
   \<and> (\<exists>m. fst (fetch_agent_actions sim_a remote_broken manager_ab [''e'' \<mapsto> Action 7]) = Inr m
         \<and> m ''a'' = Some PyNone \<and> m ''b'' = None \<and> m ''e'' = Some (Action 7))"
proof -
  let ?ego = "[''e'' \<mapsto> Action (7::nat)]"
  have h1: "distinct (map fst (remote_social_agents manager_ab))"
    by (simp add: manager_ab_def)
  have ca: "''a'' \<in> set (controlling_agent_ids sim_a)"
    by (simp add: controlling_agent_ids_def sim_a_def sim0_def)
  have cb: "''b'' \<notin> set (controlling_agent_ids sim_a)"
    by (simp add: controlling_agent_ids_def sim_a_def sim0_def)
  have h2: "\<forall>(b, hb)\<in>set (remote_social_agents manager_ab).
       b \<in> set (controlling_agent_ids sim_a) \<longrightarrow>
       (\<exists>i. agent_interfaces manager_ab b = Some i
          \<and> (action_space i = MultiTargetPose \<longrightarrow>
                (\<exists>items. recv_action remote_broken hb 5 = (VehicleActions items :: nat action))))"
    using cb by (simp add: manager_ab_def)
  have h3a: "(''a'', 1) \<in> set (remote_social_agents manager_ab)"
    by (simp add: manager_ab_def)
  have h3b: "(''b'', 2) \<in> set (remote_social_agents manager_ab)"
    by (simp add: manager_ab_def)
  have h4a: "recv_action remote_broken 1 5 = (PyNone :: nat action)"
    by (simp add: remote_broken_def)
  have h4b: "recv_action remote_broken 2 5 = (PyNone :: nat action)"
    by (simp add: remote_broken_def)
  have e: "''e'' \<notin> fst ` set (remote_social_agents manager_ab)"
    by (simp add: manager_ab_def)
  from fetch_agent_actions_no_action [OF h1 h2 h3a h4a, of ?ego]
  obtain m where m: "fst (fetch_agent_actions sim_a remote_broken manager_ab ?ego) = Inr m"
    and a: "''a'' \<in> set (controlling_agent_ids sim_a) \<longrightarrow> m ''a'' = Some PyNone"
    and o: "\<forall>b. b \<notin> fst ` set (remote_social_agents manager_ab) \<longrightarrow> m b = ?ego b"
    by blast
  from fetch_agent_actions_no_action [OF h1 h2 h3b h4b, of ?ego]
  obtain m' where m': "fst (fetch_agent_actions sim_a remote_broken manager_ab ?ego) = Inr m'"
    and b: "''b'' \<notin> set (controlling_agent_ids sim_a) \<longrightarrow> m' ''b'' = ?ego ''b''"
    by blast
  from m m' have same: "m' = m" by simp
  from a ca have 1: "m ''a'' = Some PyNone" by blast
  from b cb have 2: "m ''b'' = None" unfolding same by simp
  from o e have 3: "m ''e'' = Some (Action 7)" by simp
  from m 1 2 3
  have "\<exists>m. fst (fetch_agent_actions sim_a remote_broken manager_ab ?ego) = Inr m
         \<and> m ''a'' = Some PyNone \<and> m ''b'' = None \<and> m ''e'' = Some (Action 7)"
    by (intro exI [of _ m] conjI)
  with h1 h3a h3b h4a h4b ca cb show ?thesis by (intro conjI)
qed

text \<open>
  C2, as stated: where an agent id occurs both in the ego actions and in the filtered
  social actions, the merged map has the ego action. The merge is
  \<open>{**ego_agent_actions, **social_agent_actions}\<close>, in which the later dict wins: below
  the ego action of \<open>a\<close> is 7, the social agent \<open>a\<close> answers 1, and the merged map has 1.
\<close>

theorem fetch_agent_actions_social_wins:
  "[''a'' \<mapsto> Action (7::nat)] ''a'' = Some (Action 7)
   \<and> filter_social_agent_actions_for_controlled_vehicles sim_a manager_ab
        (map (\<lambda>(agent_id, remote_agent). (agent_id, recv_action remote_ok remote_agent 5))
           (remote_social_agents manager_ab)) = Inr [(''a'', Action 1)]
   \<and> fst (fetch_agent_actions sim_a remote_ok manager_ab [''a'' \<mapsto> Action 7])
       = Inr [''a'' \<mapsto> Action 1]"
  by (simp add: fetch_agent_actions_def filter_social_agent_actions_for_controlled_vehicles_def
      controlling_agent_ids_def Let_def log_debug_def manager_ab_def remote_ok_def
      sim_a_def sim0_def)

text \<open>
  C2, amended: whenever the filtering succeeds, \<open>fetch_agent_actions\<close> returns the union
  of the ego actions and the filtered social actions in which, for an agent id that
  occurs in both, the social action is assigned (social entries take precedence); an
  id without a filtered social action has its ego action.
\<close>

theorem fetch_agent_actions_social_precedence:
  assumes "filter_social_agent_actions_for_controlled_vehicles sim s
      (map (\<lambda>(agent_id, remote_agent). (agent_id, recv_action env remote_agent 5))
         (remote_social_agents s)) = Inr social"
  shows "\<exists>merged. fst (fetch_agent_actions sim env s ego_agent_actions) = Inr merged
     \<and> (\<forall>agent_id x. map_of social agent_id = Some x \<longrightarrow> merged agent_id = Some x)
     \<and> (\<forall>agent_id. map_of social agent_id = None \<longrightarrow>
           merged agent_id = ego_agent_actions agent_id)"
proof -
  have "fst (fetch_agent_actions sim env s ego_agent_actions)
      = Inr (ego_agent_actions ++ map_of social)"
    using assms by (rule fetch_agent_actions_result)
  moreover have "\<forall>agent_id x. map_of social agent_id = Some x \<longrightarrow>
      (ego_agent_actions ++ map_of social) agent_id = Some x"
    by (simp add: map_add_def)
  moreover have "\<forall>agent_id. map_of social agent_id = None \<longrightarrow>
      (ego_agent_actions ++ map_of social) agent_id = ego_agent_actions agent_id"
    by (simp add: map_add_def)
  ultimately show ?thesis by (intro exI [of _ "ego_agent_actions ++ map_of social"] conjI)
qed

theorem fetch_agent_actions_social_precedence_witness:
  "filter_social_agent_actions_for_controlled_vehicles sim_a manager_ab
        (map (\<lambda>(agent_id, remote_agent). (agent_id, recv_action remote_ok remote_agent 5))
           (remote_social_agents manager_ab)) = Inr [(''a'', Action 1)]
   \<and> (\<exists>merged. fst (fetch_agent_actions sim_a remote_ok manager_ab
          [''a'' \<mapsto> Action 7, ''e'' \<mapsto> Action 8]) = Inr merged
         \<and> merged ''a'' = Some (Action 1) \<and> merged ''e'' = Some (Action 8))"
proof -
  let ?ego = "[''a'' \<mapsto> Action (7::nat), ''e'' \<mapsto> Action 8]"
  have h: "filter_social_agent_actions_for_controlled_vehicles sim_a manager_ab
        (map (\<lambda>(agent_id, remote_agent). (agent_id, recv_action remote_ok remote_agent 5))
           (remote_social_agents manager_ab)) = Inr [(''a'', Action 1)]"
    by (simp add: filter_social_agent_actions_for_controlled_vehicles_def
        controlling_agent_ids_def Let_def manager_ab_def remote_ok_def sim_a_def sim0_def)
  from fetch_agent_actions_social_precedence [OF h, of ?ego]
  obtain merged where m: "fst (fetch_agent_actions sim_a remote_ok manager_ab ?ego) = Inr merged"
    and 1: "\<forall>agent_id x. map_of [(''a'', Action (1::nat))] agent_id = Some x \<longrightarrow>
        merged agent_id = Some x"
    and 2: "\<forall>agent_id. map_of [(''a'', Action (1::nat))] agent_id = None \<longrightarrow>
        merged agent_id = ?ego agent_id"
    by blast
  from 1 have a: "merged ''a'' = Some (Action 1)" by simp
  from 2 have e: "merged ''e'' = Some (Action 8)" by simp
  from m a e have "\<exists>merged. fst (fetch_agent_actions sim_a remote_ok manager_ab ?ego) = Inr merged
         \<and> merged ''a'' = Some (Action 1) \<and> merged ''e'' = Some (Action 8)"
    by (intro exI [of _ merged] conjI)
  with h show ?thesis by (intro conjI)
qed

text \<open>
  Outside the amended statement: a multi-vehicle agent that controls a vehicle and
  answers \<open>None\<close> makes the inner comprehension call \<open>items\<close> on \<open>None\<close>, and
  \<open>fetch_agent_actions\<close> raises.
\<close>

lemma fetch_agent_actions_none_bundle_raises:
  "fst (fetch_agent_actions sim_xy remote_broken manager_ab Map.empty) = Inl AttributeError"
  by (simp add: fetch_agent_actions_def filter_social_agent_actions_for_controlled_vehicles_def
      controlling_agent_ids_def Let_def log_debug_def manager_ab_def remote_broken_def
      sim_xy_def sim0_def)

section \<open>Observations of a tick\<close>

subsection \<open>One agent\<close>

lemma observe_agent_single:
  assumes "agent_interfaces s a = Some i" and "action_space i \<noteq> MultiTargetPose"
    and "vehicle_indices_by_actor_id sim a = [(v, sh)]"
    and "Sensors_observe sim a (sensor_state_for_vehicle_id sim (ident (vehicle_by_id sim v)))
           (vehicle_by_id sim v) = (ob, d)"
  shows "observe_agent sim a (observations, rewards, scores, dones) s =
     (Inr (observations(a \<mapsto> Single ob),
           rewards(a \<mapsto> Single (trip_meter_sensor (vehicle_by_id sim v) True)),
           scores(a \<mapsto> Single (trip_meter_sensor (vehicle_by_id sim v) False)),
           dones(a \<mapsto> (if sh = Some a then False else d))),
      if sh = Some a then s else log_debug (RaisedDone a) s)"
  using assms by (simp add: observe_agent_def Let_def)

lemma observe_agent_returns:
  assumes "agent_interfaces s a = Some i"
    and "action_space i \<noteq> MultiTargetPose \<longrightarrow> length (vehicle_indices_by_actor_id sim a) = 1"
  shows "\<exists>observations' rewards' scores' dones' s'.
     observe_agent sim a (observations, rewards, scores, dones) s
       = (Inr (observations', rewards', scores', dones'), s')
     \<and> (\<forall>b. b \<noteq> a \<longrightarrow> dones' b = dones b)
     \<and> agent_interfaces s' = agent_interfaces s
     \<and> (\<exists>ext. trace s' = trace s @ ext)"
proof (cases "action_space i = MultiTargetPose")
  case True
  with assms(1) show ?thesis
    by (simp add: observe_agent_def Let_def split: prod.splits)
next
  case False
  with assms(2) obtain v sh where ind: "vehicle_indices_by_actor_id sim a = [(v, sh)]"
    by (cases "vehicle_indices_by_actor_id sim a") auto
  obtain ob d where so:
    "Sensors_observe sim a (sensor_state_for_vehicle_id sim (ident (vehicle_by_id sim v)))
           (vehicle_by_id sim v) = (ob, d)"
    by (cases "Sensors_observe sim a (sensor_state_for_vehicle_id sim (ident (vehicle_by_id sim v)))
           (vehicle_by_id sim v)") simp
  show ?thesis
    unfolding observe_agent_single [OF assms(1) False ind so]
    by (simp add: log_debug_def)
qed

subsection \<open>The loop over the active agents\<close>

lemma observe_loop_returns:
  assumes "agent_interfaces s = I"
    and "\<forall>b\<in>set agents. \<exists>i. I b = Some i
       \<and> (action_space i \<noteq> MultiTargetPose \<longrightarrow> length (vehicle_indices_by_actor_id sim b) = 1)"
  shows "\<exists>observations' rewards' scores' dones' s'.
     observe_loop sim agents (observations, rewards, scores, dones) s
       = (Inr (observations', rewards', scores', dones'), s')
     \<and> (\<forall>b. b \<notin> set agents \<longrightarrow> dones' b = dones b)
     \<and> agent_interfaces s' = I
     \<and> (\<exists>ext. trace s' = trace s @ ext)"
  using assms
proof (induction agents arbitrary: observations rewards scores dones s)
  case Nil
  then show ?case by simp
next
  case (Cons x xs)
  from Cons.prems obtain i where i: "agent_interfaces s x = Some i"
    and one: "action_space i \<noteq> MultiTargetPose \<longrightarrow> length (vehicle_indices_by_actor_id sim x) = 1"
    by auto
  from observe_agent_returns [OF i one, of observations rewards scores dones]
  obtain ob1 rw1 sc1 dn1 s1 where
    step: "observe_agent sim x (observations, rewards, scores, dones) s
       = (Inr (ob1, rw1, sc1, dn1), s1)"
    and f1: "\<forall>b. b \<noteq> x \<longrightarrow> dn1 b = dones b"
    and i1: "agent_interfaces s1 = agent_interfaces s"
    and t1: "\<exists>ext. trace s1 = trace s @ ext"
    by blast
  from i1 Cons.prems(1) have I1: "agent_interfaces s1 = I" by simp
  from Cons.prems(2) have rest: "\<forall>b\<in>set xs. \<exists>i. I b = Some i
       \<and> (action_space i \<noteq> MultiTargetPose \<longrightarrow> length (vehicle_indices_by_actor_id sim b) = 1)"
    by simp
  from Cons.IH [OF I1 rest, of ob1 rw1 sc1 dn1]
  obtain ob' rw' sc' dn' s' where
    r: "observe_loop sim xs (ob1, rw1, sc1, dn1) s1 = (Inr (ob', rw', sc', dn'), s')"
    and f: "\<forall>b. b \<notin> set xs \<longrightarrow> dn' b = dn1 b"
    and i': "agent_interfaces s' = I"
    and t: "\<exists>ext. trace s' = trace s1 @ ext"
    by blast
  have 1: "observe_loop sim (x # xs) (observations, rewards, scores, dones) s
       = (Inr (ob', rw', sc', dn'), s')"
    by (simp add: step r)
  have 2: "\<forall>b. b \<notin> set (x # xs) \<longrightarrow> dn' b = dones b"
    using f f1 by simp
  from t1 t have 3: "\<exists>ext. trace s' = trace s @ ext" by auto
  from 1 2 i' 3 show ?case by blast
qed

lemma observe_loop_single_done:
  assumes "agent_interfaces s = I"
    and "\<forall>b\<in>set agents. \<exists>i. I b = Some i
       \<and> (action_space i \<noteq> MultiTargetPose \<longrightarrow> length (vehicle_indices_by_actor_id sim b) = 1)"
    and "I a = Some i" and "action_space i \<noteq> MultiTargetPose"
    and "vehicle_indices_by_actor_id sim a = [(v, sh)]"
    and "Sensors_observe sim a (sensor_state_for_vehicle_id sim (ident (vehicle_by_id sim v)))
           (vehicle_by_id sim v) = (ob, d)"
    and "a \<in> set agents
       \<or> (dones a = Some (if sh = Some a then False else d)
          \<and> (sh \<noteq> Some a \<longrightarrow> LogDebug (RaisedDone a) \<in> set (trace s)))"
  shows "\<exists>observations' rewards' scores' dones' s'.
     observe_loop sim agents (observations, rewards, scores, dones) s
       = (Inr (observations', rewards', scores', dones'), s')
     \<and> dones' a = Some (if sh = Some a then False else d)
     \<and> (sh \<noteq> Some a \<longrightarrow> LogDebug (RaisedDone a) \<in> set (trace s'))"
  using assms(1,2,7)
proof (induction agents arbitrary: observations rewards scores dones s)
  case Nil
  then show ?case by simp
next
  case (Cons x xs)
  from Cons.prems(1,2) obtain j where j: "agent_interfaces s x = Some j"
    and one: "action_space j \<noteq> MultiTargetPose \<longrightarrow> length (vehicle_indices_by_actor_id sim x) = 1"
    by auto
  from observe_agent_returns [OF j one, of observations rewards scores dones]
  obtain ob1 rw1 sc1 dn1 s1 where
    step: "observe_agent sim x (observations, rewards, scores, dones) s
       = (Inr (ob1, rw1, sc1, dn1), s1)"
    and f1: "\<forall>b. b \<noteq> x \<longrightarrow> dn1 b = dones b"
    and i1: "agent_interfaces s1 = agent_interfaces s"
    and t1: "\<exists>ext. trace s1 = trace s @ ext"
    by blast
  from i1 Cons.prems(1) have I1: "agent_interfaces s1 = I" by simp
  from Cons.prems(2) have rest: "\<forall>b\<in>set xs. \<exists>i. I b = Some i
       \<and> (action_space i \<noteq> MultiTargetPose \<longrightarrow> length (vehicle_indices_by_actor_id sim b) = 1)"
    by simp
  have pre: "a \<in> set xs
       \<or> (dn1 a = Some (if sh = Some a then False else d)
          \<and> (sh \<noteq> Some a \<longrightarrow> LogDebug (RaisedDone a) \<in> set (trace s1)))"
  proof (cases "x = a")
    case True
    from assms(3) Cons.prems(1) have ia: "agent_interfaces s a = Some i" by simp
    from step [unfolded True observe_agent_single [OF ia assms(4,5,6)]]
    have "dn1 = dones(a \<mapsto> (if sh = Some a then False else d))"
      and "s1 = (if sh = Some a then s else log_debug (RaisedDone a) s)"
      by simp_all
    then show ?thesis by (simp add: log_debug_def)
  next
    case False
    show ?thesis
    proof (cases "a \<in> set xs")
      case True
      then show ?thesis by simp
    next
      case nin: False
      with False Cons.prems(3)
      have old: "dones a = Some (if sh = Some a then False else d)"
        "sh \<noteq> Some a \<longrightarrow> LogDebug (RaisedDone a) \<in> set (trace s)"
        by simp_all
      from f1 False have "dn1 a = dones a" by simp
      moreover from t1 old(2) have "sh \<noteq> Some a \<longrightarrow> LogDebug (RaisedDone a) \<in> set (trace s1)"
        by auto
      ultimately show ?thesis using old(1) by simp
    qed
  qed
  from Cons.IH [of s1 dn1 ob1 rw1 sc1, OF I1 rest pre]
  obtain ob' rw' sc' dn' s' where
    r: "observe_loop sim xs (ob1, rw1, sc1, dn1) s1 = (Inr (ob', rw', sc', dn'), s')"
    and res: "dn' a = Some (if sh = Some a then False else d)"
      "sh \<noteq> Some a \<longrightarrow> LogDebug (RaisedDone a) \<in> set (trace s')"
    by blast
  have "observe_loop sim (x # xs) (observations, rewards, scores, dones) s
       = (Inr (ob', rw', sc', dn'), s')"
    by (simp add: step r)
  with res show ?case by blast
qed

subsection \<open>\<open>observe\<close>\<close>

text \<open>
  C3, as stated: an active single-vehicle agent that is not the shadowing agent of its
  vehicle gets done forced to false, and the shadowing agent gets the computed done. The
  code does the opposite, as its comment says (``It is not a shadow agent's fault if it is
  done''). Below the sensors report done for \<open>v1\<close>: agent \<open>a\<close> gets true where it is not
  the shadower (\<open>sim_a\<close>) and false where it is (\<open>sim_shadow\<close>).
\<close>

theorem observe_done_of_shadower_and_controller:
  "''a'' \<in> set (active_agents manager_a)
   \<and> vehicle_indices_by_actor_id sim_a ''a'' = [(''v1'', None)]
   \<and> snd (Sensors_observe sim_a ''a'' () (vehicle_by_id sim_a ''v1'')) = True
   \<and> done_for (fst (observe sim_a manager_a)) ''a'' = Some True
   \<and> vehicle_indices_by_actor_id sim_shadow ''a'' = [(''v1'', Some ''a'')]
   \<and> snd (Sensors_observe sim_shadow ''a'' () (vehicle_by_id sim_shadow ''v1'')) = True
   \<and> done_for (fst (observe sim_shadow manager_a)) ''a'' = Some False"
  by (simp add: observe_def observe_agent_def Let_def active_agents_def agent_ids_def
      set_union_def set_diff_def manager_a_def manager0_def sim_shadow_def sim_a_def sim0_def
      done_for_def log_debug_def)

text \<open>
  C3, amended: let every active agent have an interface and every active single-vehicle
  agent exactly one row in the vehicle index, so that \<open>observe\<close> returns. For an active
  single-vehicle agent: if the agent is the shadowing agent recorded for its vehicle, the
  done returned for it is false; if it is not, the done computed by the sensors is returned
  unchanged and a debug message is logged.
\<close>

theorem observe_single_vehicle_done:
  assumes "\<forall>b\<in>set (active_agents s). \<exists>i. agent_interfaces s b = Some i
       \<and> (action_space i \<noteq> MultiTargetPose \<longrightarrow> length (vehicle_indices_by_actor_id sim b) = 1)"
    and "a \<in> set (active_agents s)"
    and "agent_interfaces s a = Some i" and "action_space i \<noteq> MultiTargetPose"
    and "vehicle_indices_by_actor_id sim a = [(v, shadow_actor_id)]"
    and "Sensors_observe sim a (sensor_state_for_vehicle_id sim (ident (vehicle_by_id sim v)))
           (vehicle_by_id sim v) = (ob, dn)"
  shows "\<exists>observations rewards scores dones s'.
     observe sim s = (Inr (observations, rewards, scores, dones), s')
     \<and> (shadow_actor_id = Some a \<longrightarrow> dones a = Some False)
     \<and> (shadow_actor_id \<noteq> Some a \<longrightarrow>
           dones a = Some dn \<and> LogDebug (RaisedDone a) \<in> set (trace s'))"
proof -
  let ?dones = "\<lambda>agent_id.
            if agent_id \<in> set (agent_ids s) \<and> agent_id \<notin> set (agent_vehicle_ids sim)
            then Some (agent_id \<notin> set (pending_agent_ids s)) else None"
  have pre: "a \<in> set (active_agents s)
       \<or> (?dones a = Some (if shadow_actor_id = Some a then False else dn)
          \<and> (shadow_actor_id \<noteq> Some a \<longrightarrow> LogDebug (RaisedDone a) \<in> set (trace s)))"
    using assms(2) by (rule disjI1)
  from observe_loop_single_done [of s "agent_interfaces s" "active_agents s" sim a i v
      shadow_actor_id ob dn ?dones Map.empty Map.empty Map.empty,
      OF refl assms(1) assms(3,4,5,6) pre]
  obtain observations rewards scores dones s' where
    r: "observe_loop sim (active_agents s) (Map.empty, Map.empty, Map.empty, ?dones) s
       = (Inr (observations, rewards, scores, dones), s')"
    and d: "dones a = Some (if shadow_actor_id = Some a then False else dn)"
    and l: "shadow_actor_id \<noteq> Some a \<longrightarrow> LogDebug (RaisedDone a) \<in> set (trace s')"
    by blast
  have 1: "observe sim s = (Inr (observations, rewards, scores, dones), s')"
    using r by (simp add: observe_def Let_def)
  from d have 2: "shadow_actor_id = Some a \<longrightarrow> dones a = Some False" by simp
  from d l have 3: "shadow_actor_id \<noteq> Some a \<longrightarrow>
           dones a = Some dn \<and> LogDebug (RaisedDone a) \<in> set (trace s')"
    by simp
  from 1 2 3 show ?thesis by blast
qed

theorem observe_single_vehicle_done_witness:
  "active_agents manager_a = [''a'']
   \<and> agent_interfaces manager_a ''a'' = Some \<lparr>action_space = OtherActionSpace\<rparr>
   \<and> vehicle_indices_by_actor_id sim_a ''a'' = [(''v1'', None)]
   \<and> vehicle_indices_by_actor_id sim_shadow ''a'' = [(''v1'', Some ''a'')]
   \<and> (\<exists>observations rewards scores dones s'.
         observe sim_a manager_a = (Inr (observations, rewards, scores, dones), s')
         \<and> dones ''a'' = Some True \<and> LogDebug (RaisedDone ''a'') \<in> set (trace s'))
   \<and> (\<exists>observations rewards scores dones s'.
         observe sim_shadow manager_a = (Inr (observations, rewards, scores, dones), s')
         \<and> dones ''a'' = Some False)"
proof -
  let ?i = "\<lparr>action_space = OtherActionSpace\<rparr>"
  have act: "active_agents manager_a = [''a'']"
    by (simp add: active_agents_def agent_ids_def set_union_def set_diff_def manager_a_def
        manager0_def)
  have h1: "\<forall>b\<in>set (active_agents manager_a). \<exists>i. agent_interfaces manager_a b = Some i
       \<and> (action_space i \<noteq> MultiTargetPose \<longrightarrow> length (vehicle_indices_by_actor_id sim_a b) = 1)"
    unfolding act by (simp add: manager_a_def sim_a_def sim0_def)
  have h1s: "\<forall>b\<in>set (active_agents manager_a). \<exists>i. agent_interfaces manager_a b = Some i
       \<and> (action_space i \<noteq> MultiTargetPose \<longrightarrow>
             length (vehicle_indices_by_actor_id sim_shadow b) = 1)"
    unfolding act by (simp add: manager_a_def sim_shadow_def sim_a_def sim0_def)
  have h2: "''a'' \<in> set (active_agents manager_a)" unfolding act by simp
  have h3: "agent_interfaces manager_a ''a'' = Some ?i" by (simp add: manager_a_def)
  have h4: "action_space ?i \<noteq> MultiTargetPose" by simp
  have h5: "vehicle_indices_by_actor_id sim_a ''a'' = [(''v1'', None)]"
    by (simp add: sim_a_def sim0_def)
  have h5s: "vehicle_indices_by_actor_id sim_shadow ''a'' = [(''v1'', Some ''a'')]"
    by (simp add: sim_shadow_def sim_a_def sim0_def)
  have h6: "Sensors_observe sim_a ''a''
      (sensor_state_for_vehicle_id sim_a (ident (vehicle_by_id sim_a ''v1'')))
      (vehicle_by_id sim_a ''v1'') = (0, True)"
    by (simp add: sim_a_def sim0_def)
  have h6s: "Sensors_observe sim_shadow ''a''
      (sensor_state_for_vehicle_id sim_shadow (ident (vehicle_by_id sim_shadow ''v1'')))
      (vehicle_by_id sim_shadow ''v1'') = (0, True)"
    by (simp add: sim_shadow_def sim_a_def sim0_def)
  from observe_single_vehicle_done [OF h1 h2 h3 h4 h5 h6]
  have c1: "\<exists>observations rewards scores dones s'.
         observe sim_a manager_a = (Inr (observations, rewards, scores, dones), s')
         \<and> dones ''a'' = Some True \<and> LogDebug (RaisedDone ''a'') \<in> set (trace s')"
    by simp
  from observe_single_vehicle_done [OF h1s h2 h3 h4 h5s h6s]
  have c2: "\<exists>observations rewards scores dones s'.
         observe sim_shadow manager_a = (Inr (observations, rewards, scores, dones), s')
         \<and> dones ''a'' = Some False"
    by simp
  from act h3 h5 h5s c1 c2 show ?thesis by (intro conjI)
qed

text \<open>
  C4, as stated: a registered agent that is pending and not in the agent-vehicle set of
  the vehicle index is marked done. The initial dones of \<open>observe\<close> hold
  \<open>agent_id not in pending_agent_ids\<close> for such an agent, which is false, and the loop over
  the active agents does not touch a pending agent.
\<close>

theorem observe_pending_agent_entry:
  "''a'' \<in> set (agent_ids manager_pending)
   \<and> ''a'' \<in> set (pending_agent_ids manager_pending)
   \<and> ''a'' \<notin> set (agent_vehicle_ids sim0)
   \<and> done_for (fst (observe sim0 manager_pending)) ''a'' = Some False"
  by (simp add: observe_def Let_def active_agents_def agent_ids_def
      set_union_def set_diff_def manager_pending_def manager0_def sim0_def done_for_def)

text \<open>
  C4, amended: let every active agent have an interface and every active single-vehicle
  agent exactly one row in the vehicle index, so that \<open>observe\<close> returns. Then every
  registered agent that is pending and not in the agent-vehicle set of the vehicle index
  has an entry in the returned dones, and the entry is false (not done).
\<close>

theorem observe_pending_not_done:
  assumes "\<forall>b\<in>set (active_agents s). \<exists>i. agent_interfaces s b = Some i
       \<and> (action_space i \<noteq> MultiTargetPose \<longrightarrow> length (vehicle_indices_by_actor_id sim b) = 1)"
    and "a \<in> set (agent_ids s)"
    and "a \<in> set (pending_agent_ids s)"
    and "a \<notin> set (agent_vehicle_ids sim)"
  shows "\<exists>observations rewards scores dones s'.
     observe sim s = (Inr (observations, rewards, scores, dones), s')
     \<and> dones a = Some False"
proof -
  let ?dones = "\<lambda>agent_id.
            if agent_id \<in> set (agent_ids s) \<and> agent_id \<notin> set (agent_vehicle_ids sim)
            then Some (agent_id \<notin> set (pending_agent_ids s)) else None"
  from observe_loop_returns [of s "agent_interfaces s" "active_agents s" sim
      Map.empty Map.empty Map.empty ?dones, OF refl assms(1)]
  obtain observations rewards scores dones s' where
    r: "observe_loop sim (active_agents s) (Map.empty, Map.empty, Map.empty, ?dones) s
       = (Inr (observations, rewards, scores, dones), s')"
    and f: "\<forall>b. b \<notin> set (active_agents s) \<longrightarrow> dones b = ?dones b"
    by blast
  have 1: "observe sim s = (Inr (observations, rewards, scores, dones), s')"
    using r by (simp add: observe_def Let_def)
  from assms(3) have "a \<notin> set (active_agents s)" by (simp add: active_agents_def)
  with f have "dones a = ?dones a" by blast
  with assms(2,3,4) have 2: "dones a = Some False" by simp
  from 1 2 show ?thesis by blast
qed

theorem observe_pending_not_done_witness:
  "active_agents manager_pending = []
   \<and> ''a'' \<in> set (agent_ids manager_pending)
   \<and> ''a'' \<in> set (pending_agent_ids manager_pending)
   \<and> ''a'' \<notin> set (agent_vehicle_ids sim0)
   \<and> (\<exists>observations rewards scores dones s'.
         observe sim0 manager_pending = (Inr (observations, rewards, scores, dones), s')
         \<and> dones ''a'' = Some False)"
proof -
  have act: "active_agents manager_pending = []"
    by (simp add: active_agents_def agent_ids_def set_union_def set_diff_def
        manager_pending_def manager0_def)
  have h1: "\<forall>b\<in>set (active_agents manager_pending). \<exists>i. agent_interfaces manager_pending b = Some i
       \<and> (action_space i \<noteq> MultiTargetPose \<longrightarrow> length (vehicle_indices_by_actor_id sim0 b) = 1)"
    unfolding act by simp
  have h2: "''a'' \<in> set (agent_ids manager_pending)"
    by (simp add: agent_ids_def manager_pending_def manager0_def)
  have h3: "''a'' \<in> set (pending_agent_ids manager_pending)"
    by (simp add: manager_pending_def manager0_def)
  have h4: "''a'' \<notin> set (agent_vehicle_ids sim0)"
    by (simp add: sim0_def)
  note c = observe_pending_not_done [OF h1 h2 h3 h4]
  from act h2 h3 h4 c show ?thesis by (intro conjI)
qed

end
